theory Spec2Isabelle
  imports Main "HOL-Library.Sublist"
begin

section \<open>Characters and strings\<close>

text \<open>
  A Python \<open>str\<close> is a sequence of Unicode code points.  A character is modelled by its
  code point, a string by the list of its code points; \<open>u\<close> turns an ASCII literal into
  such a list.  The glyphs of the parser are
  \<open>\<langle>\<close> = U+27E8 = 10216, \<open>\<rangle>\<close> = U+27E9 = 10217, circled plus = U+2295 = 8853,
  circled times = U+2297 = 8855, circled dot = U+2299 = 8857, logical and = U+2227 = 8743,
  logical or = U+2228 = 8744, rightwards arrow = U+2192 = 8594; the test table adds
  the hourglass U+29D6 = 10710, the diamond U+2666 = 9830 and the hexagon U+2B22 = 11042.
\<close>

type_synonym uchar = nat
type_synonym ustring = "uchar list"

abbreviation (input) u :: "string \<Rightarrow> ustring" where
  "u s \<equiv> map of_char s"

text \<open>\<open>str.isspace\<close> on one character: the code points Python counts as whitespace.\<close>

definition isspace :: "uchar \<Rightarrow> bool" where
  "isspace c \<longleftrightarrow>
     (9 \<le> c \<and> c \<le> 13) \<or> (28 \<le> c \<and> c \<le> 32) \<or> c = 133 \<or> c = 160 \<or> c = 5760 \<or>
     (8192 \<le> c \<and> c \<le> 8202) \<or> c = 8232 \<or> c = 8233 \<or> c = 8239 \<or> c = 8287 \<or> c = 12288"

text \<open>\<open>str.strip()\<close>: leading and trailing whitespace removed.\<close>

definition strip :: "ustring \<Rightarrow> ustring" where
  "strip s = rev (dropWhile isspace (rev (dropWhile isspace s)))"

text \<open>
  \<open>str.lower()\<close>.  The parser only searches the lowered string for ASCII words, so the
  model is exact on every character whose lower-case form holds an ASCII character
  (the letters A to Z, U+0130 which lowers to \<open>i\<close> followed by U+0307, and the Kelvin sign
  U+212A which lowers to \<open>k\<close>); every other character lowers to non-ASCII characters
  and is left as it is.
\<close>

definition lower_char :: "uchar \<Rightarrow> ustring" where
  "lower_char c =
     (if 65 \<le> c \<and> c \<le> 90 then [c + 32]
      else if c = 304 then [105, 775]
      else if c = 8490 then [107]
      else [c])"

definition lower :: "ustring \<Rightarrow> ustring" where
  "lower s = concat (map lower_char s)"

text \<open>The substring test \<open>w in s\<close>.\<close>

fun contains :: "ustring \<Rightarrow> ustring \<Rightarrow> bool" where
  "contains [] w = (w = [])"
| "contains (c # cs) w = (take (length w) (c # cs) = w \<or> contains cs w)"

text \<open>\<open>str(n)\<close> for an integer, as the f-strings of the error messages print it.\<close>

fun str_nat :: "nat \<Rightarrow> ustring" where
  "str_nat n = (if n < 10 then [48 + n] else str_nat (n div 10) @ [48 + n mod 10])"

declare str_nat.simps [simp del]

definition str_int :: "int \<Rightarrow> ustring" where
  "str_int i = (if i < 0 then 45 # str_nat (nat (- i)) else str_nat (nat i))"

section \<open>Data model\<close>

datatype SymbolType = CORE | MODIFIER | OPERATOR | DELIMITER | ROUTING | TEMPORAL

text \<open>
  A value stored under the key \<open>error\<close> of a metadata dictionary is only ever read
  through its truth value.
\<close>

datatype pyval = PyNone | PyBool bool | PyInt int | PyStr ustring

fun truthy :: "pyval \<Rightarrow> bool" where
  "truthy PyNone = False"
| "truthy (PyBool b) = b"
| "truthy (PyInt i) = (i \<noteq> 0)"
| "truthy (PyStr s) = (s \<noteq> [])"

text \<open>
  An entry of the rosetta table, and the metadata of a token, is a dictionary.  The
  parser reads the keys \<open>meaning\<close>, \<open>category\<close>, \<open>precedence\<close> and \<open>error\<close> and writes
  \<open>error\<close> and \<open>reason\<close>; a field is \<open>None\<close> when the key is absent.  Meaning and
  category are strings and the precedence is an integer, as the table's schema has them.
\<close>

record symbol_data =
  d_meaning :: "ustring option"
  d_category :: "ustring option"
  d_precedence :: "int option"
  d_error :: "pyval option"
  d_reason :: "ustring option"

definition empty_dict :: symbol_data where
  "empty_dict = \<lparr>d_meaning = None, d_category = None, d_precedence = None,
                  d_error = None, d_reason = None\<rparr>"

type_synonym rosetta_table = "ustring \<rightharpoonup> symbol_data"

record KSpkToken =
  symbol :: ustring
  type :: SymbolType
  precedence :: int
  semantic_value :: ustring
  position :: int
  metadata :: symbol_data

text \<open>
  A node owns its token and its children.  The back pointer \<open>parent\<close> set by
  \<open>add_child\<close> is read by no operation of the parser and is left out.
\<close>

datatype KSpkASTNode = KSpkASTNode (token: KSpkToken) (children: "KSpkASTNode list")

text \<open>\<open>ParseError(message, position = -1, symbol = "")\<close>.\<close>

datatype ParseError = ParseError (err_message: ustring) (err_position: int) (err_symbol: ustring)

text \<open>\<open>str(e)\<close>: the text the constructor hands to \<open>Exception\<close>.\<close>

definition str_ParseError :: "ParseError \<Rightarrow> ustring" where
  "str_ParseError e =
     u ''Parse Error at position '' @ str_int (err_position e) @ u '': '' @ err_message e @
     u '' (symbol: '' @ [39] @ err_symbol e @ [39] @ u '')''"

datatype py_exception = KeyError ustring

section \<open>Parser configuration\<close>

datatype category_key = Meta | Routing | Temporal | Spatial | Logical | Emotional | Core | Modifier

fun precedence_rules :: "category_key \<Rightarrow> int" where
  "precedence_rules Meta = 0"
| "precedence_rules Routing = 1"
| "precedence_rules Temporal = 2"
| "precedence_rules Spatial = 3"
| "precedence_rules Logical = 4"
| "precedence_rules Emotional = 5"
| "precedence_rules Core = 6"
| "precedence_rules Modifier = 7"

definition OPEN :: ustring where "OPEN = [10216]"
definition CLOSE :: ustring where "CLOSE = [10217]"

definition delimiters :: "ustring \<rightharpoonup> ustring" where
  "delimiters = [OPEN \<mapsto> u ''open'', CLOSE \<mapsto> u ''close'']"

definition operators :: "ustring set" where
  "operators = {[8853], [8855], [8857], [8743], [8744], [8594]}"

section \<open>Tokenizer\<close>

definition classify_symbol :: "symbol_data \<Rightarrow> SymbolType" where
  "classify_symbol symbol_data =
     (let category = lower (case d_category symbol_data of None \<Rightarrow> [] | Some c \<Rightarrow> c) in
      if contains category (u ''temporal'') \<or> contains category (u ''time'') then TEMPORAL
      else if contains category (u ''modifier'') \<or> contains category (u ''dimensional'') then MODIFIER
      else if contains category (u ''operator'') \<or> contains category (u ''logical'') then OPERATOR
      else if contains category (u ''routing'') \<or> contains category (u ''agent'') then ROUTING
      else CORE)"

fun type_to_category :: "SymbolType \<Rightarrow> category_key" where
  "type_to_category DELIMITER = Meta"
| "type_to_category ROUTING = Routing"
| "type_to_category TEMPORAL = Temporal"
| "type_to_category OPERATOR = Logical"
| "type_to_category CORE = Core"
| "type_to_category MODIFIER = Modifier"

definition get_precedence :: "symbol_data \<Rightarrow> SymbolType \<Rightarrow> int" where
  "get_precedence symbol_data symbol_type =
     (case d_precedence symbol_data of
        Some p \<Rightarrow> p
      | None \<Rightarrow> precedence_rules (type_to_category symbol_type))"

definition create_token :: "rosetta_table \<Rightarrow> ustring \<Rightarrow> int \<Rightarrow> py_exception + KSpkToken" where
  "create_token rosetta symb pos =
     (case delimiters symb of
        Some d \<Rightarrow>
          Inr \<lparr>symbol = symb, type = DELIMITER, precedence = precedence_rules Meta,
               semantic_value = u ''delimiter_'' @ d, position = pos, metadata = empty_dict\<rparr>
      | None \<Rightarrow>
          if symb \<in> operators then
            Inr \<lparr>symbol = symb, type = OPERATOR, precedence = precedence_rules Logical,
                 semantic_value = u ''operator_'' @ symb, position = pos, metadata = empty_dict\<rparr>
          else
            (case rosetta symb of
               Some symbol_data \<Rightarrow>
                 (let symbol_type = classify_symbol symbol_data;
                      prec = get_precedence symbol_data symbol_type
                  in Inr \<lparr>symbol = symb, type = symbol_type, precedence = prec,
                          semantic_value =
                            (case d_meaning symbol_data of None \<Rightarrow> symb | Some m \<Rightarrow> m),
                          position = pos, metadata = symbol_data\<rparr>)
             | None \<Rightarrow>
                 Inl (KeyError (u ''Symbol '' @ [39] @ symb @ [39] @ u '' not found in rosetta table''))))"

text \<open>The placeholder token of the \<open>except KeyError\<close> branch.\<close>

definition error_token :: "uchar \<Rightarrow> int \<Rightarrow> KSpkToken" where
  "error_token char pos =
     \<lparr>symbol = [char], type = CORE, precedence = 10,
      semantic_value = u ''UNKNOWN_SYMBOL:'' @ [char], position = pos,
      metadata = empty_dict\<lparr>d_error := Some (PyBool True),
                             d_reason := Some (u ''unknown_symbol'')\<rparr>\<rparr>"

text \<open>
  The \<open>for char in k_spk_sequence\<close> loop, with the list \<open>tokens\<close> and the counter
  \<open>position\<close> as accumulators.  Logging is not modelled.
\<close>

fun tokenize_loop :: "rosetta_table \<Rightarrow> ustring \<Rightarrow> KSpkToken list \<Rightarrow> int \<Rightarrow> KSpkToken list" where
  "tokenize_loop rosetta [] tokens pos = tokens"
| "tokenize_loop rosetta (char # rest) tokens pos =
     (if isspace char then tokenize_loop rosetta rest tokens (pos + 1)
      else
        (case create_token rosetta [char] pos of
           Inr tok \<Rightarrow> tokenize_loop rosetta rest (tokens @ [tok]) (pos + 1)
         | Inl (KeyError _) \<Rightarrow>
             tokenize_loop rosetta rest (tokens @ [error_token char pos]) (pos + 1)))"

definition tokenize :: "rosetta_table \<Rightarrow> ustring \<Rightarrow> KSpkToken list" where
  "tokenize rosetta k_spk_sequence =
     (if strip k_spk_sequence = [] then [] else tokenize_loop rosetta k_spk_sequence [] 0)"

section \<open>AST builder\<close>

text \<open>
  The two working stacks are Python lists used with \<open>append\<close>, \<open>pop()\<close> and \<open>[-1]\<close>.
  They are modelled as lists whose head is the top of the stack.
\<close>

text \<open>
  \<open>_pop_operator_to_output\<close>: returns the two stacks as the call leaves them.
\<close>

definition pop_operator_to_output ::
  "KSpkToken list \<Rightarrow> KSpkASTNode list \<Rightarrow> KSpkToken list \<times> KSpkASTNode list" where
  "pop_operator_to_output operator_stack output_stack =
     (case operator_stack of
        [] \<Rightarrow> (operator_stack, output_stack)
      | operator_token # operator_stack' \<Rightarrow>
          if type operator_token = OPERATOR then
            (case output_stack of
               right_child # left_child # output_stack' \<Rightarrow>
                 (operator_stack',
                  KSpkASTNode operator_token [left_child, right_child] # output_stack')
             | [child] \<Rightarrow> (operator_stack', [KSpkASTNode operator_token [child]])
             | [] \<Rightarrow> (operator_stack', [KSpkASTNode operator_token []]))
          else (operator_stack', KSpkASTNode operator_token [] # output_stack))"

lemma pop_operator_to_output_length:
  "operator_stack \<noteq> [] \<Longrightarrow>
   length (fst (pop_operator_to_output operator_stack output_stack)) < length operator_stack"
  by (auto simp: pop_operator_to_output_def split: list.splits)

text \<open>
  The loop of the close delimiter:
  \<open>while operator_stack and operator_stack[-1].symbol != OPEN\<close>.
\<close>

function while_close ::
  "KSpkToken list \<Rightarrow> KSpkASTNode list \<Rightarrow> KSpkToken list \<times> KSpkASTNode list" where
  "while_close operator_stack output_stack =
     (if operator_stack \<noteq> [] \<and> symbol (hd operator_stack) \<noteq> OPEN then
        (case pop_operator_to_output operator_stack output_stack of
           (operator_stack', output_stack') \<Rightarrow> while_close operator_stack' output_stack')
      else (operator_stack, output_stack))"
  by pat_completeness auto
termination
proof (relation "measure (\<lambda>(ops, out). length ops)")
  show "wf (measure (\<lambda>(ops, out). length ops))" by simp
next
  fix operator_stack :: "KSpkToken list" and output_stack :: "KSpkASTNode list" and x y
  assume "operator_stack \<noteq> [] \<and> symbol (hd operator_stack) \<noteq> OPEN"
    and "(x, y) = pop_operator_to_output operator_stack output_stack"
  then show "((x, y), (operator_stack, output_stack)) \<in> measure (\<lambda>(ops, out). length ops)"
    using pop_operator_to_output_length [of operator_stack output_stack]
    by (metis (mono_tags, lifting) case_prod_conv fst_conv in_measure)
qed

declare while_close.simps [simp del]

text \<open>
  The loop of an operator token: pop while the stack is not empty, its top is not an
  open delimiter and the top's precedence is at most the token's.
\<close>

function while_operator ::
  "KSpkToken \<Rightarrow> KSpkToken list \<Rightarrow> KSpkASTNode list \<Rightarrow> KSpkToken list \<times> KSpkASTNode list" where
  "while_operator tok operator_stack output_stack =
     (if operator_stack \<noteq> [] \<and> symbol (hd operator_stack) \<noteq> OPEN \<and>
         precedence (hd operator_stack) \<le> precedence tok then
        (case pop_operator_to_output operator_stack output_stack of
           (operator_stack', output_stack') \<Rightarrow> while_operator tok operator_stack' output_stack')
      else (operator_stack, output_stack))"
  by pat_completeness auto
termination
proof (relation "measure (\<lambda>(tok, ops, out). length ops)")
  show "wf (measure (\<lambda>(tok, ops, out). length ops))" by simp
next
  fix tok :: KSpkToken and operator_stack :: "KSpkToken list"
    and output_stack :: "KSpkASTNode list" and x y
  assume "operator_stack \<noteq> [] \<and> symbol (hd operator_stack) \<noteq> OPEN \<and>
          precedence (hd operator_stack) \<le> precedence tok"
    and "(x, y) = pop_operator_to_output operator_stack output_stack"
  then show "((tok, x, y), (tok, operator_stack, output_stack))
               \<in> measure (\<lambda>(tok, ops, out). length ops)"
    using pop_operator_to_output_length [of operator_stack output_stack]
    by (metis (mono_tags, lifting) case_prod_conv fst_conv in_measure)
qed

declare while_operator.simps [simp del]

text \<open>
  The body of \<open>for token in tokens\<close> and the loop itself; the state is the pair of
  the operator stack and the output stack, and a raised \<open>ParseError\<close> ends the loop.
\<close>

definition process_token ::
  "KSpkToken \<Rightarrow> KSpkToken list \<Rightarrow> KSpkASTNode list
     \<Rightarrow> ParseError + (KSpkToken list \<times> KSpkASTNode list)" where
  "process_token tok operator_stack output_stack =
     (if type tok = DELIMITER then
        (if symbol tok = OPEN then Inr (tok # operator_stack, output_stack)
         else if symbol tok = CLOSE then
           (case while_close operator_stack output_stack of
              (operator_stack', output_stack') \<Rightarrow>
                if operator_stack' = [] then
                  Inl (ParseError (u ''Mismatched closing delimiter'') (position tok) (symbol tok))
                else Inr (tl operator_stack', output_stack'))
         else Inr (operator_stack, output_stack))
      else if type tok = OPERATOR then
        (case while_operator tok operator_stack output_stack of
           (operator_stack', output_stack') \<Rightarrow> Inr (tok # operator_stack', output_stack'))
      else Inr (operator_stack, KSpkASTNode tok [] # output_stack))"

fun for_tokens ::
  "KSpkToken list \<Rightarrow> KSpkToken list \<Rightarrow> KSpkASTNode list
     \<Rightarrow> ParseError + (KSpkToken list \<times> KSpkASTNode list)" where
  "for_tokens [] operator_stack output_stack = Inr (operator_stack, output_stack)"
| "for_tokens (tok # tokens) operator_stack output_stack =
     (case process_token tok operator_stack output_stack of
        Inl e \<Rightarrow> Inl e
      | Inr (operator_stack', output_stack') \<Rightarrow> for_tokens tokens operator_stack' output_stack')"

text \<open>The loop \<open>while operator_stack\<close> that pops the remaining operators.\<close>

function while_remaining ::
  "KSpkToken list \<Rightarrow> KSpkASTNode list \<Rightarrow> ParseError + (KSpkToken list \<times> KSpkASTNode list)" where
  "while_remaining operator_stack output_stack =
     (if operator_stack \<noteq> [] then
        (if symbol (hd operator_stack) = OPEN then
           Inl (ParseError (u ''Mismatched opening delimiter'') (- 1) [])
         else
           (case pop_operator_to_output operator_stack output_stack of
              (operator_stack', output_stack') \<Rightarrow> while_remaining operator_stack' output_stack'))
      else Inr (operator_stack, output_stack))"
  by pat_completeness auto
termination
proof (relation "measure (\<lambda>(ops, out). length ops)")
  show "wf (measure (\<lambda>(ops, out). length ops))" by simp
next
  fix operator_stack :: "KSpkToken list" and output_stack :: "KSpkASTNode list" and x y
  assume "operator_stack \<noteq> []"
    and "(x, y) = pop_operator_to_output operator_stack output_stack"
  then show "((x, y), (operator_stack, output_stack)) \<in> measure (\<lambda>(ops, out). length ops)"
    using pop_operator_to_output_length [of operator_stack output_stack]
    by (metis (mono_tags, lifting) case_prod_conv fst_conv in_measure)
qed

declare while_remaining.simps [simp del]

text \<open>
  \<open>_build_expression_tree\<close>.  Before it returns the root, the source formats a debug message
  with \<open>root.depth()\<close>, a recursive walk of the tree.  The interpreter's recursion limit is a
  resource bound that this model does not have: here the walk has no effect and the root is
  returned.  In the source a tree deeper than that limit makes the walk raise
  \<open>RecursionError\<close>, which \<open>parse_to_ast\<close> raises again as a \<open>ParseError\<close>.  Every error of
  the model is raised before that line, so an error of the model is the error of the source;
  a root returned by the model is returned by the source when its depth is within the limit.
\<close>

definition build_expression_tree :: "KSpkToken list \<Rightarrow> ParseError + KSpkASTNode" where
  "build_expression_tree tokens =
     (case for_tokens tokens [] [] of
        Inl e \<Rightarrow> Inl e
      | Inr (operator_stack, output_stack) \<Rightarrow>
          (case while_remaining operator_stack output_stack of
             Inl e \<Rightarrow> Inl e
           | Inr (operator_stack', output_stack') \<Rightarrow>
               if length output_stack' \<noteq> 1 then
                 Inl (ParseError (u ''Invalid expression structure: '' @
                                  str_nat (length output_stack') @ u '' root nodes'') (- 1) [])
               else Inr (hd output_stack')))"

text \<open>
  \<open>parse_to_ast\<close>.  Whatever \<open>_build_expression_tree\<close> raises is caught and raised
  again as a new \<open>ParseError\<close> whose message is built from \<open>str(e)\<close> and whose position
  and symbol are the defaults.
\<close>

definition parse_to_ast :: "KSpkToken list \<Rightarrow> ParseError + KSpkASTNode" where
  "parse_to_ast tokens =
     (if tokens = [] then Inl (ParseError (u ''Cannot parse empty token list'') (- 1) [])
      else if length tokens = 1 then Inr (KSpkASTNode (hd tokens) [])
      else
        (case build_expression_tree tokens of
           Inr root \<Rightarrow> Inr root
         | Inl e \<Rightarrow> Inl (ParseError (u ''Failed to build AST: '' @ str_ParseError e) (- 1) [])))"

section \<open>Validation and the entry point\<close>

fun validate_ast :: "KSpkASTNode \<Rightarrow> ustring list" where
  "validate_ast (KSpkASTNode tok chs) =
     (if (case d_error (metadata tok) of None \<Rightarrow> False | Some v \<Rightarrow> truthy v)
      then [u ''Error token in AST: '' @ symbol tok] else [])
     @ concat (map validate_ast chs)"

text \<open>\<open>parse_k_spk_expression\<close>: the validation issues are only logged.\<close>

definition parse_k_spk_expression :: "ustring \<Rightarrow> rosetta_table \<Rightarrow> ParseError + KSpkASTNode" where
  "parse_k_spk_expression expression rosetta = parse_to_ast (tokenize rosetta expression)"

text \<open>The table \<open>TEST_ROSETTA\<close> of the repository's tests.\<close>

definition entry :: "string \<Rightarrow> string \<Rightarrow> symbol_data" where
  "entry m c = empty_dict\<lparr>d_meaning := Some (u m), d_category := Some (u c)\<rparr>"

definition TEST_ROSETTA :: rosetta_table where
  "TEST_ROSETTA =
     [[8853] \<mapsto> entry ''logical_operation'' ''operator'',
      [10710] \<mapsto> entry ''temporal_marker'' ''temporal'',
      [9830] \<mapsto> entry ''emotional_context'' ''modifier'',
      [11042] \<mapsto> entry ''spatial_dimension'' ''modifier'',
      [8594] \<mapsto> entry ''agent_handoff'' ''routing'',
      [10216] \<mapsto> entry ''group_open'' ''delimiter'',
      [10217] \<mapsto> entry ''group_close'' ''delimiter'']"

text \<open>
  The token the body of the tokenizer's loop appends for a character that is not
  whitespace: the token \<open>_create_token\<close> returns, or the placeholder when it raises.
\<close>

definition char_token :: "rosetta_table \<Rightarrow> uchar \<Rightarrow> int \<Rightarrow> KSpkToken" where
  "char_token rosetta c pos =
     (case create_token rosetta [c] pos of Inr tok \<Rightarrow> tok | Inl e \<Rightarrow> error_token c pos)"

section \<open>Notions used to state the properties\<close>

text \<open>
  What a pop leaves on the output stack when the popped token is \<open>t\<close>: the body of
  \<open>_pop_operator_to_output\<close> after \<open>operator_stack.pop()\<close>.
\<close>

definition reduce :: "KSpkToken \<Rightarrow> KSpkASTNode list \<Rightarrow> KSpkASTNode list" where
  "reduce t out =
     (if type t = OPERATOR then
        (case out of
           r # l # rest \<Rightarrow> KSpkASTNode t [l, r] # rest
         | [c] \<Rightarrow> [KSpkASTNode t [c]]
         | [] \<Rightarrow> [KSpkASTNode t []])
      else KSpkASTNode t [] # out)"

text \<open>
  Grouping depth, read off the token list alone.  A token opens a group when the builder
  pushes it on the operator stack and its symbol is the open delimiter; it closes a group
  when it is a delimiter token whose symbol is the close delimiter.  \<open>scan d toks\<close>
  walks the tokens from depth \<open>d\<close>: it returns the first close token met at depth 0,
  or the depth reached at the end.  \<open>opens\<close> counts the open delimiters on an
  operator stack.
\<close>

definition is_open :: "KSpkToken \<Rightarrow> bool" where
  "is_open t \<longleftrightarrow> symbol t = OPEN \<and> (type t = DELIMITER \<or> type t = OPERATOR)"

definition is_close :: "KSpkToken \<Rightarrow> bool" where
  "is_close t \<longleftrightarrow> type t = DELIMITER \<and> symbol t = CLOSE"

fun scan :: "nat \<Rightarrow> KSpkToken list \<Rightarrow> KSpkToken + nat" where
  "scan d [] = Inr d"
| "scan d (t # ts) =
     (if is_open t then scan (Suc d) ts
      else if is_close t then (case d of 0 \<Rightarrow> Inl t | Suc d' \<Rightarrow> scan d' ts)
      else scan d ts)"

definition opens :: "KSpkToken list \<Rightarrow> nat" where
  "opens ops = length (filter (\<lambda>t. symbol t = OPEN) ops)"

definition step_depth :: "KSpkToken \<Rightarrow> nat \<Rightarrow> nat" where
  "step_depth tok d = (if is_open tok then Suc d else if is_close tok then d - 1 else d)"

text \<open>The two errors the builder raises for unbalanced grouping.\<close>

definition close_error :: "KSpkToken \<Rightarrow> ParseError" where
  "close_error t = ParseError (u ''Mismatched closing delimiter'') (position t) (symbol t)"

definition open_error :: ParseError where
  "open_error = ParseError (u ''Mismatched opening delimiter'') (- 1) []"

text \<open>
  An error of the builder as \<open>parse_to_ast\<close> raises it again: the message is prefixed, the
  position and the symbol are the defaults.
\<close>

definition reraised :: "ParseError \<Rightarrow> ParseError" where
  "reraised e = ParseError (u ''Failed to build AST: '' @ str_ParseError e) (- 1) []"

text \<open>
  The operator stack as the builder fills it: every token on it has the open delimiter's
  symbol or is an operator token.
\<close>

definition builder_stack :: "KSpkToken list \<Rightarrow> bool" where
  "builder_stack ops = list_all (\<lambda>t. symbol t = OPEN \<or> type t = OPERATOR) ops"

text \<open>
  The shape of a tree.  A node is well formed when it has no children, or wraps an
  operator or routing token and has one or two children; it never has more than two
  children, a node with children never wraps a core, modifier, temporal or delimiter
  token, and its children are well formed.  \<open>leaf_tokens\<close> lists the tokens of the
  childless nodes from left to right; \<open>flatten_ast_tokens\<close> is the pre-order token
  list of the demo script.  \<open>stack_leaves\<close> reads the leaves of an output stack from
  its bottom to its top, and \<open>inv\<close> is what the builder keeps true of its two stacks
  after the tokens \<open>pre\<close>.
\<close>

fun well_formed :: "KSpkASTNode \<Rightarrow> bool" where
  "well_formed (KSpkASTNode t chs) =
     ((chs = [] \<or>
       ((type t = OPERATOR \<or> type t = ROUTING) \<and> (length chs = 1 \<or> length chs = 2))) \<and>
      length chs \<le> 2 \<and>
      (chs = [] \<or>
       (type t \<noteq> CORE \<and> type t \<noteq> MODIFIER \<and> type t \<noteq> TEMPORAL \<and> type t \<noteq> DELIMITER)) \<and>
      list_all well_formed chs)"

fun leaf_tokens :: "KSpkASTNode \<Rightarrow> KSpkToken list" where
  "leaf_tokens (KSpkASTNode t chs) = (if chs = [] then [t] else concat (map leaf_tokens chs))"

fun flatten_ast_tokens :: "KSpkASTNode \<Rightarrow> KSpkToken list" where
  "flatten_ast_tokens (KSpkASTNode t chs) = t # concat (map flatten_ast_tokens chs)"

definition stack_leaves :: "KSpkASTNode list \<Rightarrow> KSpkToken list" where
  "stack_leaves out = concat (map leaf_tokens (rev out))"

definition inv :: "KSpkToken list \<Rightarrow> KSpkToken list \<Rightarrow> KSpkASTNode list \<Rightarrow> bool" where
  "inv pre ops out \<longleftrightarrow>
     list_all well_formed out \<and> subseq (stack_leaves out) pre \<and>
     set ops \<subseteq> set pre \<and> builder_stack ops \<and>
     set (concat (map flatten_ast_tokens out)) \<subseteq> set pre"

text \<open>
  What \<open>validate_ast\<close> looks at and what it reports: a token is flagged when its
  metadata holds a truthy value under \<open>error\<close>, and the issue reported for it names its
  symbol.
\<close>

definition flagged :: "KSpkToken \<Rightarrow> bool" where
  "flagged tok = (case d_error (metadata tok) of None \<Rightarrow> False | Some v \<Rightarrow> truthy v)"

definition issue :: "KSpkToken \<Rightarrow> ustring" where
  "issue tok = u ''Error token in AST: '' @ symbol tok"

text \<open>
  A symbol is unknown when it is no delimiter, not in the fixed operator set and not in
  the table.  A known operator is a character of the fixed operator set, or a character
  that is not whitespace, no delimiter and has a table entry that classifies as an
  operator and carries no truthy \<open>error\<close>.  \<open>placeholder\<close> says of a token: if its
  symbol is unknown, it is the placeholder of the tokenizer (core class, precedence 10,
  error flag set, semantic value naming the symbol).
\<close>

definition unknown :: "rosetta_table \<Rightarrow> ustring \<Rightarrow> bool" where
  "unknown rosetta sy \<longleftrightarrow> delimiters sy = None \<and> sy \<notin> operators \<and> rosetta sy = None"

definition known_operator :: "rosetta_table \<Rightarrow> uchar \<Rightarrow> bool" where
  "known_operator rosetta c \<longleftrightarrow>
     [c] \<in> operators \<or>
     (delimiters [c] = None \<and> \<not> isspace c \<and>
      (case rosetta [c] of
         None \<Rightarrow> False
       | Some d \<Rightarrow> classify_symbol d = OPERATOR \<and>
                  (case d_error d of None \<Rightarrow> True | Some v \<Rightarrow> \<not> truthy v)))"

definition placeholder :: "rosetta_table \<Rightarrow> KSpkToken \<Rightarrow> bool" where
  "placeholder rosetta tok \<longleftrightarrow>
     (unknown rosetta (symbol tok) \<longrightarrow>
        type tok = CORE \<and> precedence tok = 10 \<and>
        d_error (metadata tok) = Some (PyBool True) \<and>
        semantic_value tok = u ''UNKNOWN_SYMBOL:'' @ symbol tok)"

text \<open>
  \<open>table_metadata\<close> says of a token whose symbol is in the table: its metadata is the
  table's entry when the symbol is neither a delimiter nor in the fixed operator set,
  and the empty dictionary otherwise.  \<open>FLAGGED_TABLE\<close> is a table whose entries carry
  \<open>error: True\<close>, for the circled plus (in the operator set) and for the letter X.
\<close>

definition table_metadata :: "rosetta_table \<Rightarrow> KSpkToken \<Rightarrow> bool" where
  "table_metadata rosetta tok \<longleftrightarrow>
     (case rosetta (symbol tok) of
        None \<Rightarrow> True
      | Some d \<Rightarrow>
          metadata tok =
            (if delimiters (symbol tok) = None \<and> symbol tok \<notin> operators then d else empty_dict))"

definition flagged_entry :: symbol_data where
  "flagged_entry = empty_dict\<lparr>d_category := Some (u ''operator''), d_error := Some (PyBool True)\<rparr>"

definition FLAGGED_TABLE :: rosetta_table where
  "FLAGGED_TABLE = [[8853] \<mapsto> flagged_entry, [88] \<mapsto> flagged_entry]"

section \<open>Facts about the tokenizer\<close>

lemma strip_all_space: "\<forall>c\<in>set s. isspace c \<Longrightarrow> strip s = []"
  by (auto simp: strip_def dest: set_dropWhileD)

lemma strip_empty_iff: "strip s = [] \<longleftrightarrow> (\<forall>c\<in>set s. isspace c)"
proof
  assume e: "strip s = []"
  show "\<forall>c\<in>set s. isspace c"
  proof (cases "dropWhile isspace s = []")
    case True
    then show ?thesis by simp
  next
    case False
    then have "\<not> isspace (hd (dropWhile isspace s))" by (rule hd_dropWhile)
    moreover have "hd (dropWhile isspace s) \<in> set (dropWhile isspace s)" using False by simp
    moreover have "\<forall>x\<in>set (dropWhile isspace s). isspace x" using e by (simp add: strip_def)
    ultimately show ?thesis by blast
  qed
next
  assume "\<forall>c\<in>set s. isspace c"
  then show "strip s = []" by (rule strip_all_space)
qed

lemma tokenize_loop_append:
  "tokenize_loop rosetta s tokens pos = tokens @ tokenize_loop rosetta s [] pos"
proof (induction s arbitrary: tokens pos)
  case Nil
  show ?case by simp
next
  case (Cons c cs)
  show ?case
  proof (cases "isspace c")
    case True
    then show ?thesis using Cons.IH [of tokens "pos + 1"] Cons.IH [of "[]" "pos + 1"] by simp
  next
    case False
    then show ?thesis
      using Cons.IH [of "tokens @ [t]" "pos + 1" for t] Cons.IH [of "[t]" "pos + 1" for t]
      by (auto split: sum.splits py_exception.splits)
  qed
qed

lemma tokenize_loop_Cons:
  "tokenize_loop rosetta (c # cs) [] pos =
     (if isspace c then [] else [char_token rosetta c pos]) @ tokenize_loop rosetta cs [] (pos + 1)"
  using tokenize_loop_append [of rosetta cs "[t]" "pos + 1" for t]
  by (auto simp: char_token_def split: sum.splits py_exception.splits)

lemma symbol_char_token: "symbol (char_token rosetta c pos) = [c]"
  by (auto simp: char_token_def create_token_def error_token_def Let_def
      split: sum.splits option.splits if_splits)

lemma tokenize_single: "\<not> isspace c \<Longrightarrow> tokenize rosetta [c] = [char_token rosetta c 0]"
  by (simp add: tokenize_def strip_def tokenize_loop_Cons del: tokenize_loop.simps(2))

lemma tokenize_loop_all_space:
  "\<forall>c\<in>set s. isspace c \<Longrightarrow> tokenize_loop rosetta s [] pos = []"
  by (induction s arbitrary: pos) simp_all

lemma tokenize_eq_loop: "tokenize rosetta s = tokenize_loop rosetta s [] 0"
  by (simp add: tokenize_def strip_empty_iff tokenize_loop_all_space)

lemma delimiters_operator: "[c] \<in> operators \<Longrightarrow> delimiters [c] = None"
  by (auto simp: operators_def delimiters_def OPEN_def CLOSE_def)

lemma char_token_open:
  "char_token rosetta 10216 p =
     \<lparr>symbol = OPEN, type = DELIMITER, precedence = 0, semantic_value = u ''delimiter_open'',
      position = p, metadata = empty_dict\<rparr>"
  by (simp add: char_token_def create_token_def delimiters_def OPEN_def CLOSE_def)

lemma char_token_close:
  "char_token rosetta 10217 p =
     \<lparr>symbol = CLOSE, type = DELIMITER, precedence = 0, semantic_value = u ''delimiter_close'',
      position = p, metadata = empty_dict\<rparr>"
  by (simp add: char_token_def create_token_def delimiters_def OPEN_def CLOSE_def)

lemma char_token_operator:
  "[c] \<in> operators \<Longrightarrow>
   char_token rosetta c p =
     \<lparr>symbol = [c], type = OPERATOR, precedence = 4, semantic_value = u ''operator_'' @ [c],
      position = p, metadata = empty_dict\<rparr>"
  by (simp add: char_token_def create_token_def delimiters_operator)

lemma char_token_table:
  "delimiters [c] = None \<Longrightarrow> [c] \<notin> operators \<Longrightarrow> rosetta [c] = Some d \<Longrightarrow>
   char_token rosetta c p =
     \<lparr>symbol = [c], type = classify_symbol d,
      precedence = get_precedence d (classify_symbol d),
      semantic_value = (case d_meaning d of None \<Rightarrow> [c] | Some m \<Rightarrow> m),
      position = p, metadata = d\<rparr>"
  by (simp add: char_token_def create_token_def Let_def)

lemma char_token_unknown:
  "delimiters [c] = None \<Longrightarrow> [c] \<notin> operators \<Longrightarrow> rosetta [c] = None \<Longrightarrow>
   char_token rosetta c p = error_token c p"
  by (simp add: char_token_def create_token_def)

lemma classify_temporal: "classify_symbol (entry m ''temporal'') = TEMPORAL"
  by (simp add: classify_symbol_def entry_def empty_dict_def lower_def lower_char_def)

lemma classify_modifier: "classify_symbol (entry m ''modifier'') = MODIFIER"
  by (simp add: classify_symbol_def entry_def empty_dict_def lower_def lower_char_def)

lemma precedence_entry: "get_precedence (entry m c) ty = precedence_rules (type_to_category ty)"
  by (simp add: get_precedence_def entry_def empty_dict_def)

lemma hourglass_token:
  "symbol (char_token TEST_ROSETTA 10710 p) = [10710] \<and>
   type (char_token TEST_ROSETTA 10710 p) = TEMPORAL \<and>
   precedence (char_token TEST_ROSETTA 10710 p) = 2"
proof -
  have "delimiters [10710] = None" by (simp add: delimiters_def OPEN_def CLOSE_def)
  moreover have "[10710] \<notin> operators" by (simp add: operators_def)
  moreover have "TEST_ROSETTA [10710] = Some (entry ''temporal_marker'' ''temporal'')"
    by (simp add: TEST_ROSETTA_def)
  ultimately show ?thesis
    by (simp add: char_token_table classify_temporal precedence_entry)
qed

lemma diamond_token:
  "symbol (char_token TEST_ROSETTA 9830 p) = [9830] \<and>
   type (char_token TEST_ROSETTA 9830 p) = MODIFIER \<and>
   precedence (char_token TEST_ROSETTA 9830 p) = 7"
proof -
  have "delimiters [9830] = None" by (simp add: delimiters_def OPEN_def CLOSE_def)
  moreover have "[9830] \<notin> operators" by (simp add: operators_def)
  moreover have "TEST_ROSETTA [9830] = Some (entry ''emotional_context'' ''modifier'')"
    by (simp add: TEST_ROSETTA_def)
  ultimately show ?thesis
    by (simp add: char_token_table classify_modifier precedence_entry)
qed

lemma plus_operator: "[8853] \<in> operators" by (simp add: operators_def)
lemma arrow_operator: "[8594] \<in> operators" by (simp add: operators_def)

lemma tokenize_grouped:
  "tokenize TEST_ROSETTA [10216, 8853, 10710, 10217, 9830] =
     [char_token TEST_ROSETTA 10216 0, char_token TEST_ROSETTA 8853 1,
      char_token TEST_ROSETTA 10710 2, char_token TEST_ROSETTA 10217 3,
      char_token TEST_ROSETTA 9830 4]"
  by (simp add: tokenize_eq_loop tokenize_loop_Cons isspace_def del: tokenize_loop.simps(2))

lemma tokenize_handoff:
  "tokenize TEST_ROSETTA [8594, 8853, 10710] =
     [char_token TEST_ROSETTA 8594 0, char_token TEST_ROSETTA 8853 1,
      char_token TEST_ROSETTA 10710 2]"
  by (simp add: tokenize_eq_loop tokenize_loop_Cons isspace_def del: tokenize_loop.simps(2))

lemma tokenize_plus_close:
  "tokenize TEST_ROSETTA [8853, 10217] =
     [char_token TEST_ROSETTA 8853 0, char_token TEST_ROSETTA 10217 1]"
  by (simp add: tokenize_eq_loop tokenize_loop_Cons isspace_def del: tokenize_loop.simps(2))

section \<open>Empty and one-character input\<close>

text \<open>
  Claim C5.  For every string made of whitespace characters only, the empty string
  included, \<open>tokenize\<close> returns the empty token list, and \<open>parse_to_ast\<close> on the empty
  token list fails with the error "Cannot parse empty token list".
\<close>

theorem whitespace_gives_empty_input:
  "\<forall>c\<in>set s. isspace c \<Longrightarrow>
     tokenize rosetta s = [] \<and>
     parse_to_ast (tokenize rosetta s) =
       Inl (ParseError (u ''Cannot parse empty token list'') (- 1) [])"
  by (simp add: tokenize_def strip_all_space parse_to_ast_def)

theorem whitespace_gives_empty_input_witness:
  "isspace 32 \<and> isspace 9 \<and> isspace 12288 \<and>
   tokenize TEST_ROSETTA [32, 9, 12288] = [] \<and>
   parse_to_ast (tokenize TEST_ROSETTA [32, 9, 12288]) =
     Inl (ParseError (u ''Cannot parse empty token list'') (- 1) [])"
proof -
  have h: "\<forall>c\<in>set [32, 9, 12288]. isspace c" by (simp add: isspace_def)
  then have i: "isspace 32 \<and> isspace 9 \<and> isspace 12288" by simp
  show ?thesis using whitespace_gives_empty_input [OF h, of TEST_ROSETTA] i by blast
qed

text \<open>
  Claim C6.  For every character that is not whitespace, known to the table or not,
  delimiter or operator or neither, tokenizing the one-character string and parsing
  the result returns a node without children whose token's symbol is that character.
\<close>

theorem single_symbol_is_leaf:
  "\<not> isspace c \<Longrightarrow>
     parse_to_ast (tokenize rosetta [c]) = Inr (KSpkASTNode (char_token rosetta c 0) []) \<and>
     parse_k_spk_expression [c] rosetta = Inr (KSpkASTNode (char_token rosetta c 0) []) \<and>
     symbol (char_token rosetta c 0) = [c]"
  by (simp add: parse_k_spk_expression_def tokenize_single parse_to_ast_def symbol_char_token)

theorem single_symbol_is_leaf_witness:
  "\<not> isspace 10217 \<and>
   parse_to_ast (tokenize TEST_ROSETTA [10217]) =
     Inr (KSpkASTNode (char_token TEST_ROSETTA 10217 0) []) \<and>
   parse_k_spk_expression [10217] TEST_ROSETTA =
     Inr (KSpkASTNode (char_token TEST_ROSETTA 10217 0) []) \<and>
   symbol (char_token TEST_ROSETTA 10217 0) = [10217]"
proof -
  have h: "\<not> isspace 10217" by (simp add: isspace_def)
  show ?thesis using single_symbol_is_leaf [OF h, of TEST_ROSETTA] h by blast
qed

section \<open>Facts about the builder\<close>

lemma OPEN_neq_CLOSE: "OPEN \<noteq> CLOSE" by (simp add: OPEN_def CLOSE_def)

lemma pop_Cons: "pop_operator_to_output (t # ops) out = (ops, reduce t out)"
  by (simp add: pop_operator_to_output_def reduce_def split: list.splits)

lemma while_close_Nil: "while_close [] out = ([], out)"
  by (simp add: while_close.simps)

lemma while_close_Cons:
  "while_close (t # ops) out =
     (if symbol t \<noteq> OPEN then while_close ops (reduce t out) else (t # ops, out))"
  by (subst while_close.simps) (simp add: pop_Cons)

lemma while_operator_Nil: "while_operator tok [] out = ([], out)"
  by (simp add: while_operator.simps)

lemma while_operator_Cons:
  "while_operator tok (t # ops) out =
     (if symbol t \<noteq> OPEN \<and> precedence t \<le> precedence tok
      then while_operator tok ops (reduce t out) else (t # ops, out))"
  by (subst while_operator.simps) (simp add: pop_Cons)

lemma while_remaining_Nil: "while_remaining [] out = Inr ([], out)"
  by (simp add: while_remaining.simps)

lemma while_remaining_Cons:
  "while_remaining (t # ops) out =
     (if symbol t = OPEN then Inl open_error else while_remaining ops (reduce t out))"
  by (subst while_remaining.simps) (simp add: pop_Cons open_error_def)


lemma while_close_fst:
  "fst (while_close ops out) = dropWhile (\<lambda>t. symbol t \<noteq> OPEN) ops"
  by (induction ops arbitrary: out) (simp_all add: while_close_Nil while_close_Cons)

lemma opens_dropWhile: "opens (dropWhile (\<lambda>t. symbol t \<noteq> OPEN) ops) = opens ops"
  by (induction ops) (simp_all add: opens_def)

lemma dropWhile_Nil_opens: "dropWhile (\<lambda>t. symbol t \<noteq> OPEN) ops = [] \<longleftrightarrow> opens ops = 0"
  by (simp add: opens_def dropWhile_eq_Nil_conv filter_empty_conv)

lemma opens_tl_dropWhile:
  "opens ops \<noteq> 0 \<Longrightarrow> opens (tl (dropWhile (\<lambda>t. symbol t \<noteq> OPEN) ops)) = opens ops - 1"
  by (induction ops) (auto simp: opens_def)

lemma while_operator_opens: "opens (fst (while_operator tok ops out)) = opens ops"
  by (induction ops arbitrary: out) (simp_all add: while_operator_Nil while_operator_Cons opens_def)

lemma while_remaining_Inl:
  "while_remaining ops out = Inl e \<longleftrightarrow> opens ops \<noteq> 0 \<and> e = open_error"
  by (induction ops arbitrary: out) (auto simp: while_remaining_Nil while_remaining_Cons opens_def)

lemma while_remaining_Inr:
  "while_remaining ops out = Inr r \<Longrightarrow> fst r = [] \<and> opens ops = 0"
  by (induction ops arbitrary: out) (auto simp: while_remaining_Nil while_remaining_Cons opens_def split: if_splits)

lemma process_token_open:
  "type tok = DELIMITER \<Longrightarrow> symbol tok = OPEN \<Longrightarrow>
   process_token tok ops out = Inr (tok # ops, out)"
  by (simp add: process_token_def)

lemma process_token_close:
  "type tok = DELIMITER \<Longrightarrow> symbol tok = CLOSE \<Longrightarrow>
   process_token tok ops out =
     (if opens ops = 0 then Inl (close_error tok)
      else Inr (tl (fst (while_close ops out)), snd (while_close ops out)))"
  using while_close_fst [of ops out] dropWhile_Nil_opens [of ops]
  by (simp add: process_token_def case_prod_beta close_error_def OPEN_neq_CLOSE [symmetric])

lemma process_token_other_delimiter:
  "type tok = DELIMITER \<Longrightarrow> symbol tok \<noteq> OPEN \<Longrightarrow> symbol tok \<noteq> CLOSE \<Longrightarrow>
   process_token tok ops out = Inr (ops, out)"
  by (simp add: process_token_def)

lemma process_token_operator:
  "type tok = OPERATOR \<Longrightarrow>
   process_token tok ops out =
     Inr (tok # fst (while_operator tok ops out), snd (while_operator tok ops out))"
  by (simp add: process_token_def case_prod_beta)

lemma process_token_operand:
  "type tok \<noteq> DELIMITER \<Longrightarrow> type tok \<noteq> OPERATOR \<Longrightarrow>
   process_token tok ops out = Inr (ops, KSpkASTNode tok [] # out)"
  by (simp add: process_token_def)

lemma token_cases:
  obtains (openD) "type tok = DELIMITER" "symbol tok = OPEN"
  | (closeD) "type tok = DELIMITER" "symbol tok = CLOSE"
  | (otherD) "type tok = DELIMITER" "symbol tok \<noteq> OPEN" "symbol tok \<noteq> CLOSE"
  | (operator) "type tok = OPERATOR"
  | (operand) "type tok \<noteq> DELIMITER" "type tok \<noteq> OPERATOR"
  by blast

lemma process_token_close_fail:
  "is_close tok \<Longrightarrow> opens ops = 0 \<Longrightarrow> process_token tok ops out = Inl (close_error tok)"
  by (simp add: is_close_def process_token_close)

lemma process_token_ok:
  assumes "\<not> (is_close tok \<and> opens ops = 0)"
  shows "\<exists>ops1 out1. process_token tok ops out = Inr (ops1, out1) \<and>
           opens ops1 = step_depth tok (opens ops)"
proof (cases tok rule: token_cases)
  case openD
  then show ?thesis
    by (simp add: process_token_open step_depth_def is_open_def opens_def)
next
  case closeD
  with assms have "opens ops \<noteq> 0" by (simp add: is_close_def)
  with closeD show ?thesis
    by (simp add: process_token_close step_depth_def is_open_def is_close_def
        OPEN_neq_CLOSE [symmetric] while_close_fst opens_tl_dropWhile)
next
  case otherD
  then show ?thesis
    by (simp add: process_token_other_delimiter step_depth_def is_open_def is_close_def)
next
  case operator
  then show ?thesis
    using while_operator_opens [of tok ops out]
    by (simp add: process_token_operator step_depth_def is_open_def is_close_def opens_def)
next
  case operand
  then show ?thesis
    by (simp add: process_token_operand step_depth_def is_open_def is_close_def)
qed


lemma for_tokens_scan_fail:
  "scan (opens ops) toks = Inl t \<Longrightarrow> for_tokens toks ops out = Inl (close_error t)"
proof (induction toks arbitrary: ops out)
  case Nil
  then show ?case by simp
next
  case (Cons tok toks)
  show ?case
  proof (cases "is_close tok \<and> opens ops = 0")
    case True
    then have "\<not> is_open tok" by (auto simp: is_open_def is_close_def OPEN_neq_CLOSE OPEN_neq_CLOSE [symmetric])
    with True Cons.prems have "t = tok" by simp
    with True show ?thesis by (simp add: process_token_close_fail)
  next
    case False
    from process_token_ok [OF False, of out] obtain ops1 out1
      where p: "process_token tok ops out = Inr (ops1, out1)"
        and d: "opens ops1 = step_depth tok (opens ops)" by blast
    from False Cons.prems have "scan (step_depth tok (opens ops)) toks = Inl t"
      by (auto simp: step_depth_def split: if_splits nat.splits)
    with d Cons.IH [of ops1 out1] p show ?thesis by simp
  qed
qed

lemma for_tokens_scan_ok:
  "scan (opens ops) toks = Inr d \<Longrightarrow>
   \<exists>ops' out'. for_tokens toks ops out = Inr (ops', out') \<and> opens ops' = d"
proof (induction toks arbitrary: ops out)
  case Nil
  then show ?case by simp
next
  case (Cons tok toks)
  have nf: "\<not> (is_close tok \<and> opens ops = 0)"
  proof
    assume a: "is_close tok \<and> opens ops = 0"
    then have "\<not> is_open tok" by (auto simp: is_open_def is_close_def OPEN_neq_CLOSE OPEN_neq_CLOSE [symmetric])
    with a Cons.prems show False by simp
  qed
  from process_token_ok [OF nf, of out] obtain ops1 out1
    where p: "process_token tok ops out = Inr (ops1, out1)"
      and d1: "opens ops1 = step_depth tok (opens ops)" by blast
  from nf Cons.prems have "scan (step_depth tok (opens ops)) toks = Inr d"
    by (auto simp: step_depth_def split: if_splits nat.splits)
  with d1 Cons.IH [of ops1 out1] p show ?case by simp
qed

lemma build_close:
  "scan 0 toks = Inl t \<Longrightarrow> build_expression_tree toks = Inl (close_error t)"
  using for_tokens_scan_fail [of "[]" toks t "[]"]
  by (simp add: build_expression_tree_def opens_def)

lemma build_open:
  assumes "scan 0 toks = Inr (Suc d)"
  shows "build_expression_tree toks = Inl open_error"
proof -
  from assms for_tokens_scan_ok [of "[]" toks "Suc d" "[]"] obtain ops' out'
    where f: "for_tokens toks [] [] = Inr (ops', out')" and o: "opens ops' = Suc d"
    by (auto simp: opens_def)
  have "while_remaining ops' out' = Inl open_error"
  proof (cases "while_remaining ops' out'")
    case (Inl e)
    then show ?thesis by (simp add: while_remaining_Inl)
  next
    case (Inr r)
    from while_remaining_Inr [OF Inr] o show ?thesis by simp
  qed
  with f show ?thesis by (simp add: build_expression_tree_def)
qed

lemma build_balanced:
  assumes "scan 0 toks = Inr 0"
  shows "(\<exists>root. build_expression_tree toks = Inr root) \<or>
         (\<exists>n. build_expression_tree toks =
            Inl (ParseError (u ''Invalid expression structure: '' @ str_nat n @ u '' root nodes'')
                   (- 1) []))"
proof -
  from assms for_tokens_scan_ok [of "[]" toks 0 "[]"] obtain ops' out'
    where f: "for_tokens toks [] [] = Inr (ops', out')" and o: "opens ops' = 0"
    by (auto simp: opens_def)
  show ?thesis
  proof (cases "while_remaining ops' out'")
    case (Inl e)
    with o show ?thesis by (simp add: while_remaining_Inl)
  next
    case (Inr r)
    with f show ?thesis by (cases r) (auto simp: build_expression_tree_def)
  qed
qed

lemma mismatched_iff_unbalanced:
  "(build_expression_tree toks = Inl (ParseError (u ''Mismatched closing delimiter'') p s)
      \<longleftrightarrow> (\<exists>t. scan 0 toks = Inl t \<and> p = position t \<and> s = symbol t)) \<and>
   (build_expression_tree toks = Inl (ParseError (u ''Mismatched opening delimiter'') p s)
      \<longleftrightarrow> (\<exists>d. scan 0 toks = Inr (Suc d)) \<and> p = - 1 \<and> s = [])"
proof (cases "scan 0 toks")
  case (Inl t)
  from build_close [OF Inl] Inl show ?thesis
    by (auto simp: close_error_def)
next
  case (Inr d)
  show ?thesis
  proof (cases d)
    case 0
    with Inr build_balanced [of toks] show ?thesis by auto
  next
    case (Suc d')
    with Inr build_open [of toks d'] show ?thesis by (auto simp: open_error_def)
  qed
qed

lemma parse_to_ast_two:
  "2 \<le> length toks \<Longrightarrow>
   parse_to_ast toks =
     (case build_expression_tree toks of
        Inr root \<Rightarrow> Inr root
      | Inl e \<Rightarrow> Inl (ParseError (u ''Failed to build AST: '' @ str_ParseError e) (- 1) []))"
  by (auto simp: parse_to_ast_def)

section \<open>The error as \<open>parse_to_ast\<close> raises it again\<close>

text \<open>
  The decimal text of a position contains no colon and determines the position, so the
  text of a re-raised error determines the position, and the message with the symbol.
\<close>

lemma str_nat_digits: "c \<in> set (str_nat n) \<Longrightarrow> 48 \<le> c \<and> c \<le> 57"
proof (induction n arbitrary: c rule: str_nat.induct)
  case (1 n)
  show ?case
  proof (cases "n < 10")
    case True
    with "1.prems" show ?thesis by (simp add: str_nat.simps [of n])
  next
    case False
    have "n mod 10 < 10" by simp
    with False "1.prems" "1.IH" show ?thesis
      by (auto simp: str_nat.simps [of n])
  qed
qed

lemma str_nat_not_Nil: "str_nat n \<noteq> []"
  by (simp add: str_nat.simps [of n])

lemma str_nat_inj: "str_nat m = str_nat n \<Longrightarrow> m = n"
proof (induction n arbitrary: m rule: str_nat.induct)
  case (1 n)
  show ?case
  proof (cases "n < 10")
    case True
    show ?thesis
    proof (cases "m < 10")
      case True
      with \<open>n < 10\<close> "1.prems" show ?thesis
        by (simp add: str_nat.simps [of n] str_nat.simps [of m])
    next
      case False
      with \<open>n < 10\<close> "1.prems" str_nat_not_Nil [of "m div 10"] show ?thesis
        by (simp add: str_nat.simps [of n] str_nat.simps [of m] append_eq_Cons_conv)
    qed
  next
    case False
    show ?thesis
    proof (cases "m < 10")
      case True
      with False "1.prems" str_nat_not_Nil [of "n div 10"] show ?thesis
        by (simp add: str_nat.simps [of n] str_nat.simps [of m] Cons_eq_append_conv)
    next
      case mf: False
      with False "1.prems" have "str_nat (m div 10) = str_nat (n div 10)" "m mod 10 = n mod 10"
        by (simp_all add: str_nat.simps [of n] str_nat.simps [of m])
      with "1.IH" [OF False] have "m div 10 = n div 10" "m mod 10 = n mod 10" by simp_all
      then show ?thesis by (metis div_mult_mod_eq)
    qed
  qed
qed

lemma str_int_chars: "c \<in> set (str_int i) \<Longrightarrow> c \<noteq> 58"
  using str_nat_digits by (fastforce simp: str_int_def split: if_splits)

lemma str_int_inj: "str_int i = str_int j \<Longrightarrow> i = j"
proof -
  assume a: "str_int i = str_int j"
  have neg: "45 # str_nat a \<noteq> str_nat b" for a b
  proof
    assume "45 # str_nat a = str_nat b"
    then have "45 \<in> set (str_nat b)" by (metis list.set_intros(1))
    from str_nat_digits [OF this] show False by simp
  qed
  show ?thesis
  proof (cases "i < 0")
    case True
    show ?thesis
    proof (cases "j < 0")
      case jt: True
      with True a have "nat (- i) = nat (- j)" by (simp add: str_int_def str_nat_inj)
      with True jt show ?thesis by simp
    next
      case False
      with True a neg show ?thesis by (simp add: str_int_def)
    qed
  next
    case False
    show ?thesis
    proof (cases "j < 0")
      case True
      with False a neg [of "nat (- j)" "nat i"] show ?thesis by (simp add: str_int_def)
    next
      case jf: False
      with False a have "nat i = nat j" by (simp add: str_int_def str_nat_inj)
      with False jf show ?thesis by simp
    qed
  qed
qed

lemma takeWhile_colon:
  "58 \<notin> set xs \<Longrightarrow> takeWhile (\<lambda>c. c \<noteq> (58::nat)) (xs @ 58 # r) = xs"
  by (induction xs) auto

lemma colon_split:
  fixes xs ys :: "nat list"
  assumes "xs @ 58 # r = ys @ 58 # r'" "58 \<notin> set xs" "58 \<notin> set ys"
  shows "xs = ys \<and> r = r'"
proof -
  from assms(1) have "takeWhile (\<lambda>c. c \<noteq> (58::nat)) (xs @ 58 # r) =
                      takeWhile (\<lambda>c. c \<noteq> (58::nat)) (ys @ 58 # r')"
    by simp
  with assms(2,3) have "xs = ys" by (simp add: takeWhile_colon)
  with assms(1) show ?thesis by simp
qed

lemma reraised_eq:
  "reraised (ParseError m p s) = reraised (ParseError m' p' s') \<longleftrightarrow>
     p = p' \<and> m @ u '' (symbol: '' @ [39] @ s @ [39] @ u '')'' = m' @ u '' (symbol: '' @ [39] @ s' @ [39] @ u '')''"
proof
  assume "reraised (ParseError m p s) = reraised (ParseError m' p' s')"
  then have "str_int p @ 58 # (32 # m @ u '' (symbol: '' @ [39] @ s @ [39] @ u '')'') =
             str_int p' @ 58 # (32 # m' @ u '' (symbol: '' @ [39] @ s' @ [39] @ u '')'')"
    by (simp add: reraised_def str_ParseError_def)
  from colon_split [OF this] str_int_chars [of 58 p] str_int_chars [of 58 p']
  show "p = p' \<and> m @ u '' (symbol: '' @ [39] @ s @ [39] @ u '')'' = m' @ u '' (symbol: '' @ [39] @ s' @ [39] @ u '')''"
    by (auto dest: str_int_inj)
next
  assume "p = p' \<and> m @ u '' (symbol: '' @ [39] @ s @ [39] @ u '')'' = m' @ u '' (symbol: '' @ [39] @ s' @ [39] @ u '')''"
  then show "reraised (ParseError m p s) = reraised (ParseError m' p' s')"
    by (simp add: reraised_def str_ParseError_def)
qed

lemma reraised_closing_closing:
  "reraised (ParseError (u ''Mismatched closing delimiter'') p s) =
   reraised (ParseError (u ''Mismatched closing delimiter'') p' s') \<longleftrightarrow> p = p' \<and> s = s'"
  by (simp add: reraised_eq)

lemma reraised_opening_opening:
  "reraised (ParseError (u ''Mismatched opening delimiter'') p s) =
   reraised (ParseError (u ''Mismatched opening delimiter'') p' s') \<longleftrightarrow> p = p' \<and> s = s'"
  by (simp add: reraised_eq)

lemma reraised_closing_opening:
  "reraised (ParseError (u ''Mismatched closing delimiter'') p s) \<noteq>
   reraised (ParseError (u ''Mismatched opening delimiter'') p' s')"
  by (simp add: reraised_eq)

lemma reraised_closing_invalid:
  "reraised (ParseError (u ''Mismatched closing delimiter'') p s) \<noteq>
   reraised (ParseError (u ''Invalid expression structure: '' @ x) p' s')"
  by (simp add: reraised_eq)

lemma reraised_opening_invalid:
  "reraised (ParseError (u ''Mismatched opening delimiter'') p s) \<noteq>
   reraised (ParseError (u ''Invalid expression structure: '' @ x) p' s')"
  by (simp add: reraised_eq)

lemma parse_to_ast_reraised:
  "2 \<le> length toks \<Longrightarrow>
   parse_to_ast toks = (case build_expression_tree toks of Inr root \<Rightarrow> Inr root | Inl e \<Rightarrow> Inl (reraised e))"
  by (simp add: parse_to_ast_two reraised_def split: sum.splits)

lemma parse_mismatched_iff:
  assumes "2 \<le> length toks"
  shows "(parse_to_ast toks = Inl (reraised (ParseError (u ''Mismatched closing delimiter'') p s))
            \<longleftrightarrow> (\<exists>t. scan 0 toks = Inl t \<and> p = position t \<and> s = symbol t)) \<and>
         (parse_to_ast toks = Inl (reraised (ParseError (u ''Mismatched opening delimiter'') p s))
            \<longleftrightarrow> (\<exists>d. scan 0 toks = Inr (Suc d)) \<and> p = - 1 \<and> s = [])"
proof (cases "scan 0 toks")
  case (Inl t)
  from build_close [OF Inl] assms
  have "parse_to_ast toks =
          Inl (reraised (ParseError (u ''Mismatched closing delimiter'') (position t) (symbol t)))"
    by (simp add: parse_to_ast_reraised close_error_def)
  with Inl reraised_closing_closing [of "position t" "symbol t" p s]
    reraised_closing_opening [of "position t" "symbol t" p s]
  show ?thesis by auto
next
  case (Inr d)
  show ?thesis
  proof (cases d)
    case 0
    from build_balanced [of toks] Inr 0 assms
    consider root where "parse_to_ast toks = Inr root"
      | n where "parse_to_ast toks =
          Inl (reraised (ParseError (u ''Invalid expression structure: '' @ str_nat n @ u '' root nodes'')
                 (- 1) []))"
      by (auto simp: parse_to_ast_reraised)
    then show ?thesis
    proof cases
      case 1
      with Inr 0 show ?thesis by simp
    next
      case 2
      with Inr 0
        reraised_closing_invalid [of p s "str_nat n @ u '' root nodes''" "- 1" "[]"]
        reraised_opening_invalid [of p s "str_nat n @ u '' root nodes''" "- 1" "[]"]
      show ?thesis by auto
    qed
  next
    case (Suc d')
    from build_open [of toks d'] Inr Suc assms
    have "parse_to_ast toks =
            Inl (reraised (ParseError (u ''Mismatched opening delimiter'') (- 1) []))"
      by (simp add: parse_to_ast_reraised open_error_def)
    with Inr Suc reraised_opening_opening [of "- 1" "[]" p s]
      reraised_closing_opening [of p s "- 1" "[]"]
    show ?thesis by auto
  qed
qed

lemma parse_to_ast_single: "parse_to_ast [t] = Inr (KSpkASTNode t [])"
  by (simp add: parse_to_ast_def)

section \<open>The builder on short token lists\<close>

lemma str_nat_2: "str_nat (Suc (Suc 0)) = [50]"
  by (simp add: str_nat.simps)

lemma str_nat_1: "str_nat (Suc 0) = [49]"
  by (simp add: str_nat.simps)

lemma build_group_then_operand:
  assumes "type a = DELIMITER" "symbol a = OPEN" "type b = OPERATOR" "symbol b \<noteq> OPEN"
    and "type c \<noteq> DELIMITER" "type c \<noteq> OPERATOR"
    and "type d = DELIMITER" "symbol d = CLOSE"
    and "type e \<noteq> DELIMITER" "type e \<noteq> OPERATOR"
  shows "build_expression_tree [a, b, c, d, e] =
           Inl (ParseError (u ''Invalid expression structure: 2 root nodes'') (- 1) [])"
proof -
  have 1: "process_token a [] [] = Inr ([a], [])"
    using assms by (simp add: process_token_open)
  have 2: "process_token b [a] [] = Inr ([b, a], [])"
    using assms by (simp add: process_token_operator while_operator_Cons)
  have 3: "process_token c [b, a] [] = Inr ([b, a], [KSpkASTNode c []])"
    using assms by (simp add: process_token_operand)
  have 4: "process_token d [b, a] [KSpkASTNode c []] = Inr ([], [KSpkASTNode b [KSpkASTNode c []]])"
    using assms
    by (simp add: process_token_close opens_def while_close_Cons while_close_Nil reduce_def)
  have 5: "process_token e [] [KSpkASTNode b [KSpkASTNode c []]] =
             Inr ([], [KSpkASTNode e [], KSpkASTNode b [KSpkASTNode c []]])"
    using assms by (simp add: process_token_operand)
  show ?thesis
    by (simp add: build_expression_tree_def 1 2 3 4 5 while_remaining_Nil str_nat_2)
qed

lemma build_three_operators_operand:
  assumes "type a = OPERATOR" "symbol a \<noteq> OPEN" "type b = OPERATOR" "symbol b \<noteq> OPEN"
    and "precedence a \<le> precedence b" and "type c \<noteq> DELIMITER" "type c \<noteq> OPERATOR"
  shows "build_expression_tree [a, b, c] =
           Inr (KSpkASTNode b [KSpkASTNode a [], KSpkASTNode c []])"
proof -
  have 1: "process_token a [] [] = Inr ([a], [])"
    using assms by (simp add: process_token_operator while_operator_Nil)
  have 2: "process_token b [a] [] = Inr ([b], [KSpkASTNode a []])"
    using assms
    by (simp add: process_token_operator while_operator_Cons while_operator_Nil reduce_def)
  have 3: "process_token c [b] [KSpkASTNode a []] = Inr ([b], [KSpkASTNode c [], KSpkASTNode a []])"
    using assms by (simp add: process_token_operand)
  show ?thesis
    using assms
    by (simp add: build_expression_tree_def 1 2 3 while_remaining_Cons while_remaining_Nil reduce_def)
qed

lemma build_operator_close:
  assumes "type a = OPERATOR" "symbol a \<noteq> OPEN" "type b = DELIMITER" "symbol b = CLOSE"
  shows "build_expression_tree [a, b] =
           Inl (ParseError (u ''Mismatched closing delimiter'') (position b) (symbol b))"
proof -
  have 1: "process_token a [] [] = Inr ([a], [])"
    using assms by (simp add: process_token_operator while_operator_Nil)
  have 2: "process_token b [a] [] = Inl (close_error b)"
    using assms by (simp add: process_token_close opens_def)
  show ?thesis
    by (simp add: build_expression_tree_def 1 2 close_error_def)
qed

lemma grouped_tokens:
  "map (\<lambda>t. (symbol t, type t, precedence t))
       (tokenize TEST_ROSETTA [10216, 8853, 10710, 10217, 9830]) =
     [([10216], DELIMITER, 0), ([8853], OPERATOR, 4), ([10710], TEMPORAL, 2),
      ([10217], DELIMITER, 0), ([9830], MODIFIER, 7)]"
  by (simp add: tokenize_grouped char_token_open char_token_close
      char_token_operator [OF plus_operator] hourglass_token diamond_token OPEN_def CLOSE_def)

lemma grouped_build:
  "build_expression_tree (tokenize TEST_ROSETTA [10216, 8853, 10710, 10217, 9830]) =
     Inl (ParseError (u ''Invalid expression structure: 2 root nodes'') (- 1) [])"
  unfolding tokenize_grouped
  by (rule build_group_then_operand)
     (simp_all add: char_token_open char_token_close char_token_operator [OF plus_operator]
        hourglass_token diamond_token OPEN_def)

lemma grouped_parse:
  "parse_k_spk_expression [10216, 8853, 10710, 10217, 9830] TEST_ROSETTA =
     Inl (ParseError
            (u ''Failed to build AST: Parse Error at position -1: Invalid expression structure: 2 root nodes (symbol: ''
             @ [39, 39] @ u '')'')
            (- 1) [])"
proof -
  have "length (tokenize TEST_ROSETTA [10216, 8853, 10710, 10217, 9830]) = 5"
    by (simp add: tokenize_grouped)
  then show ?thesis
    by (simp add: parse_k_spk_expression_def parse_to_ast_two grouped_build str_ParseError_def
        str_int_def str_nat_1)
qed

lemma str_nat_one: "str_nat 1 = [49]"
  by (simp add: str_nat.simps)

lemma handoff_tokens:
  "map (\<lambda>t. (symbol t, type t, precedence t)) (tokenize TEST_ROSETTA [8594, 8853, 10710]) =
     [([8594], OPERATOR, 4), ([8853], OPERATOR, 4), ([10710], TEMPORAL, 2)]"
  by (simp add: tokenize_handoff char_token_operator [OF plus_operator]
      char_token_operator [OF arrow_operator] hourglass_token)

lemma handoff_build:
  "build_expression_tree (tokenize TEST_ROSETTA [8594, 8853, 10710]) =
     Inr (KSpkASTNode (char_token TEST_ROSETTA 8853 1)
            [KSpkASTNode (char_token TEST_ROSETTA 8594 0) [],
             KSpkASTNode (char_token TEST_ROSETTA 10710 2) []])"
  unfolding tokenize_handoff
  by (rule build_three_operators_operand)
     (simp_all add: char_token_operator [OF plus_operator] char_token_operator [OF arrow_operator]
        hourglass_token OPEN_def)

lemma handoff_parse:
  "parse_k_spk_expression [8594, 8853, 10710] TEST_ROSETTA =
     Inr (KSpkASTNode (char_token TEST_ROSETTA 8853 1)
            [KSpkASTNode (char_token TEST_ROSETTA 8594 0) [],
             KSpkASTNode (char_token TEST_ROSETTA 10710 2) []])"
proof -
  have "length (tokenize TEST_ROSETTA [8594, 8853, 10710]) = 3"
    by (simp add: tokenize_handoff)
  then show ?thesis
    by (simp add: parse_k_spk_expression_def parse_to_ast_two handoff_build)
qed

lemma plus_close_build:
  "build_expression_tree (tokenize TEST_ROSETTA [8853, 10217]) =
     Inl (ParseError (u ''Mismatched closing delimiter'') 1 CLOSE)"
proof -
  have "build_expression_tree [char_token TEST_ROSETTA 8853 0, char_token TEST_ROSETTA 10217 1] =
          Inl (ParseError (u ''Mismatched closing delimiter'')
                 (position (char_token TEST_ROSETTA 10217 1))
                 (symbol (char_token TEST_ROSETTA 10217 1)))"
    by (rule build_operator_close)
       (simp_all add: char_token_operator [OF plus_operator] char_token_close OPEN_def)
  then show ?thesis by (simp add: tokenize_plus_close char_token_close)
qed

lemma plus_close_parse:
  "parse_k_spk_expression [8853, 10217] TEST_ROSETTA =
     Inl (ParseError
            (u ''Failed to build AST: Parse Error at position 1: Mismatched closing delimiter (symbol: ''
             @ [39] @ CLOSE @ [39] @ u '')'')
            (- 1) [])"
proof -
  have "length (tokenize TEST_ROSETTA [8853, 10217]) = 2"
    by (simp add: tokenize_plus_close)
  then show ?thesis
    by (simp add: parse_k_spk_expression_def parse_to_ast_two plus_close_build str_ParseError_def
        str_int_def str_nat_one str_nat_1)
qed

section \<open>The builder's invariant\<close>

lemma reduce_operator:
  "type t = OPERATOR \<Longrightarrow>
   reduce t out =
     (case out of
        r # l # rest \<Rightarrow> KSpkASTNode t [l, r] # rest
      | [c] \<Rightarrow> [KSpkASTNode t [c]]
      | [] \<Rightarrow> [KSpkASTNode t []])"
  by (simp add: reduce_def)

lemma inv_reduce:
  assumes "inv pre (t # ops) out" "symbol t \<noteq> OPEN"
  shows "inv pre ops (reduce t out)"
proof -
  from assms have ty: "type t = OPERATOR" and tin: "t \<in> set pre"
    by (auto simp: inv_def builder_stack_def)
  show ?thesis
  proof (cases out)
    case Nil
    with assms ty tin show ?thesis
      by (simp add: inv_def reduce_operator builder_stack_def stack_leaves_def
          subseq_singleton_left)
  next
    case (Cons r out1)
    show ?thesis
    proof (cases out1)
      case Nil
      with Cons assms ty show ?thesis
        by (cases r) (auto simp: inv_def reduce_operator builder_stack_def stack_leaves_def)
    next
      case (Cons l rest)
      with \<open>out = r # out1\<close> assms ty show ?thesis
        by (cases r; cases l)
           (auto simp: inv_def reduce_operator builder_stack_def stack_leaves_def)
    qed
  qed
qed

lemma inv_while_close:
  "inv pre ops out \<Longrightarrow> inv pre (fst (while_close ops out)) (snd (while_close ops out))"
proof (induction ops arbitrary: out)
  case Nil
  then show ?case by (simp add: while_close_Nil)
next
  case (Cons t ops)
  show ?case
  proof (cases "symbol t = OPEN")
    case True
    with Cons.prems show ?thesis by (simp add: while_close_Cons)
  next
    case False
    from inv_reduce [OF Cons.prems False] Cons.IH [of "reduce t out"] False
    show ?thesis by (simp add: while_close_Cons)
  qed
qed

lemma inv_while_operator:
  "inv pre ops out \<Longrightarrow>
   inv pre (fst (while_operator tok ops out)) (snd (while_operator tok ops out))"
proof (induction ops arbitrary: out)
  case Nil
  then show ?case by (simp add: while_operator_Nil)
next
  case (Cons t ops)
  show ?case
  proof (cases "symbol t \<noteq> OPEN \<and> precedence t \<le> precedence tok")
    case True
    then have "symbol t \<noteq> OPEN" by simp
    from inv_reduce [OF Cons.prems this] Cons.IH [of "reduce t out"] True
    show ?thesis by (simp add: while_operator_Cons)
  next
    case False
    with Cons.prems show ?thesis by (auto simp: while_operator_Cons)
  qed
qed


lemma inv_extend: "inv pre ops out \<Longrightarrow> inv (pre @ [tok]) ops out"
  by (auto simp: inv_def intro: list_emb_prefix)

lemma inv_tl: "inv pre ops out \<Longrightarrow> inv pre (tl ops) out"
  by (cases ops) (auto simp: inv_def builder_stack_def)

lemma inv_push:
  "inv pre ops out \<Longrightarrow> symbol tok = OPEN \<or> type tok = OPERATOR \<Longrightarrow>
   inv (pre @ [tok]) (tok # ops) out"
  using inv_extend [of pre ops out tok] by (auto simp: inv_def builder_stack_def)

lemma inv_leaf:
  assumes "inv pre ops out" "type tok \<noteq> DELIMITER" "type tok \<noteq> OPERATOR"
  shows "inv (pre @ [tok]) ops (KSpkASTNode tok [] # out)"
proof -
  from assms(1) have "subseq (stack_leaves out) pre" by (simp add: inv_def)
  then have "subseq (stack_leaves out @ [tok]) (pre @ [tok])"
    by (rule list_emb_append_mono) simp
  with assms(1) show ?thesis
    by (auto simp: inv_def stack_leaves_def)
qed

lemma inv_process_token:
  assumes "inv pre ops out" "process_token tok ops out = Inr (ops', out')"
  shows "inv (pre @ [tok]) ops' out'"
proof (cases tok rule: token_cases)
  case openD
  with assms show ?thesis by (auto simp: process_token_open intro: inv_push)
next
  case closeD
  with assms(2) have "ops' = tl (fst (while_close ops out))" "out' = snd (while_close ops out)"
    by (auto simp: process_token_close split: if_splits)
  with inv_while_close [OF assms(1)] show ?thesis
    by (auto intro: inv_extend inv_tl)
next
  case otherD
  with assms show ?thesis by (auto simp: process_token_other_delimiter intro: inv_extend)
next
  case operator
  with assms(2) have "ops' = tok # fst (while_operator tok ops out)"
    "out' = snd (while_operator tok ops out)"
    by (auto simp: process_token_operator)
  with inv_while_operator [OF assms(1), of tok] operator show ?thesis
    by (auto intro: inv_push)
next
  case operand
  with assms show ?thesis by (auto simp: process_token_operand intro: inv_leaf)
qed

lemma inv_for_tokens:
  "inv pre ops out \<Longrightarrow> for_tokens toks ops out = Inr (ops', out') \<Longrightarrow>
   inv (pre @ toks) ops' out'"
proof (induction toks arbitrary: pre ops out)
  case Nil
  then show ?case by simp
next
  case (Cons tok toks)
  from Cons.prems(2) obtain ops1 out1
    where p: "process_token tok ops out = Inr (ops1, out1)"
      and f: "for_tokens toks ops1 out1 = Inr (ops', out')"
    by (auto split: sum.splits)
  from inv_process_token [OF Cons.prems(1) p] Cons.IH [OF _ f, of "pre @ [tok]"]
  show ?case by simp
qed

lemma inv_empty: "inv [] [] []"
  by (simp add: inv_def builder_stack_def stack_leaves_def)



lemma builder_stack_for_tokens:
  "for_tokens toks [] [] = Inr (ops, out) \<Longrightarrow> builder_stack ops"
  using inv_for_tokens [OF inv_empty, of toks ops out] by (simp add: inv_def)

lemma pop_and_reduce_main:
  "builder_stack (operator_token # operator_stack) \<Longrightarrow> symbol operator_token \<noteq> OPEN \<Longrightarrow>
   pop_operator_to_output (operator_token # operator_stack) output_stack =
     (operator_stack,
      case output_stack of
        right_child # left_child # rest \<Rightarrow>
          KSpkASTNode operator_token [left_child, right_child] # rest
      | [child] \<Rightarrow> [KSpkASTNode operator_token [child]]
      | [] \<Rightarrow> [KSpkASTNode operator_token []])"
  by (simp add: pop_Cons reduce_operator builder_stack_def)

lemma str_nat_0: "str_nat 0 = [48]"
  by (simp add: str_nat.simps)

lemma tokenize_close_plus:
  "tokenize TEST_ROSETTA [10217, 8853] =
     [char_token TEST_ROSETTA 10217 0, char_token TEST_ROSETTA 8853 1]"
  by (simp add: tokenize_eq_loop tokenize_loop_Cons isspace_def del: tokenize_loop.simps(2))

lemma tokenize_open_plus_hourglass:
  "tokenize TEST_ROSETTA [10216, 8853, 10710] =
     [char_token TEST_ROSETTA 10216 0, char_token TEST_ROSETTA 8853 1,
      char_token TEST_ROSETTA 10710 2]"
  by (simp add: tokenize_eq_loop tokenize_loop_Cons isspace_def del: tokenize_loop.simps(2))

lemma scan_close_plus:
  "scan 0 (tokenize TEST_ROSETTA [10217, 8853]) = Inl (char_token TEST_ROSETTA 10217 0)"
  by (simp add: tokenize_close_plus is_open_def is_close_def char_token_close
      OPEN_neq_CLOSE [symmetric])

lemma scan_open_plus_hourglass:
  "scan 0 (tokenize TEST_ROSETTA [10216, 8853, 10710]) = Inr (Suc 0)"
  by (simp add: tokenize_open_plus_hourglass is_open_def is_close_def char_token_open
      char_token_operator [OF plus_operator] hourglass_token OPEN_def)

section \<open>The examples of the test suite\<close>

text \<open>
  Claim C1.  With the test table, the input of \<open>test_grouped_expression\<close> (open, circled
  plus, hourglass, close, diamond) is expected to parse to a tree rooted at the diamond.
  The parser classifies the diamond as a modifier, pushes it as an operand beside the
  reduced group, ends with two nodes on the output stack and raises.
\<close>

theorem grouped_then_modifier_is_rejected:
  "map (\<lambda>t. (symbol t, type t, precedence t))
       (tokenize TEST_ROSETTA [10216, 8853, 10710, 10217, 9830]) =
     [([10216], DELIMITER, 0), ([8853], OPERATOR, 4), ([10710], TEMPORAL, 2),
      ([10217], DELIMITER, 0), ([9830], MODIFIER, 7)] \<and>
   build_expression_tree (tokenize TEST_ROSETTA [10216, 8853, 10710, 10217, 9830]) =
     Inl (ParseError (u ''Invalid expression structure: 2 root nodes'') (- 1) []) \<and>
   parse_k_spk_expression [10216, 8853, 10710, 10217, 9830] TEST_ROSETTA =
     Inl (ParseError
            (u ''Failed to build AST: Parse Error at position -1: Invalid expression structure: 2 root nodes (symbol: ''
             @ [39, 39] @ u '')'')
            (- 1) [])"
  by (intro conjI) (rule grouped_tokens grouped_build grouped_parse)+

text \<open>
  Claim C2.  With the test table, the input of \<open>test_agent_handoff\<close> (arrow, circled
  plus, hourglass) is expected to give the arrow the routing class with precedence 1.
  The arrow is in the fixed operator set, which is consulted before the table: its
  token is an operator token of precedence 4, and the root of the tree is the circled
  plus, with the childless arrow node as its left child and the hourglass as its right.
\<close>

theorem arrow_is_tokenized_as_operator:
  "map (\<lambda>t. (symbol t, type t, precedence t)) (tokenize TEST_ROSETTA [8594, 8853, 10710]) =
     [([8594], OPERATOR, 4), ([8853], OPERATOR, 4), ([10710], TEMPORAL, 2)] \<and>
   parse_k_spk_expression [8594, 8853, 10710] TEST_ROSETTA =
     Inr (KSpkASTNode (char_token TEST_ROSETTA 8853 1)
            [KSpkASTNode (char_token TEST_ROSETTA 8594 0) [],
             KSpkASTNode (char_token TEST_ROSETTA 10710 2) []])"
  by (intro conjI) (rule handoff_tokens handoff_parse)+

section \<open>What the caller sees of a parse error\<close>

text \<open>
  Claim C8.  For circled plus followed by a close delimiter the builder raises the
  mismatched-delimiter error with the delimiter's position 1 and symbol.  \<open>parse_to_ast\<close>
  catches it and raises a new error: the caller receives position -1 and the empty
  symbol, and finds the original position and symbol only inside the message text.
\<close>

theorem closing_delimiter_error_loses_position:
  "build_expression_tree (tokenize TEST_ROSETTA [8853, 10217]) =
     Inl (ParseError (u ''Mismatched closing delimiter'') 1 CLOSE) \<and>
   parse_k_spk_expression [8853, 10217] TEST_ROSETTA =
     Inl (ParseError
            (u ''Failed to build AST: Parse Error at position 1: Mismatched closing delimiter (symbol: ''
             @ [39] @ CLOSE @ [39] @ u '')'')
            (- 1) [])"
  by (intro conjI) (rule plus_close_build plus_close_parse)+

section \<open>Unbalanced grouping\<close>

text \<open>
  Claim C4 as stated fails on a lone delimiter.  The input that consists of the close
  delimiter alone starts with an unmatched close delimiter, and the input that consists of
  the open delimiter alone ends with an unmatched open delimiter; \<open>parse_to_ast\<close> returns a
  single token as a leaf before the builder runs, so both parses succeed.
\<close>

theorem lone_delimiter_is_returned_as_leaf:
  "scan 0 (tokenize TEST_ROSETTA [10217]) = Inl (char_token TEST_ROSETTA 10217 0) \<and>
   parse_k_spk_expression [10217] TEST_ROSETTA =
     Inr (KSpkASTNode (char_token TEST_ROSETTA 10217 0) []) \<and>
   scan 0 (tokenize TEST_ROSETTA [10216]) = Inr (Suc 0) \<and>
   parse_k_spk_expression [10216] TEST_ROSETTA =
     Inr (KSpkASTNode (char_token TEST_ROSETTA 10216 0) [])"
  by (simp add: parse_k_spk_expression_def tokenize_single isspace_def parse_to_ast_def
      is_open_def is_close_def char_token_close char_token_open OPEN_neq_CLOSE [symmetric])

text \<open>
  Claim C4, amended.  For a token list of two tokens or more, \<open>parse_to_ast\<close> fails with the
  mismatched-delimiter errors exactly in the unbalanced cases.  It fails with the re-raised
  "Mismatched closing delimiter" error, whose text names the position and the symbol of the
  offending token, if and only if the token list has a close delimiter that no earlier open
  delimiter matches (the first such token is the one named); it fails with the re-raised
  "Mismatched opening delimiter" error if and only if no close delimiter is unmatched and
  an open delimiter is left unclosed at the end.  A list of one token is returned as a
  leaf, whatever the token is.
\<close>

theorem parse_mismatched_delimiter_exactly_when_unbalanced:
  "(2 \<le> length toks \<longrightarrow>
      (parse_to_ast toks = Inl (reraised (ParseError (u ''Mismatched closing delimiter'') p s))
         \<longleftrightarrow> (\<exists>t. scan 0 toks = Inl t \<and> p = position t \<and> s = symbol t)) \<and>
      (parse_to_ast toks = Inl (reraised (ParseError (u ''Mismatched opening delimiter'') p s))
         \<longleftrightarrow> (\<exists>d. scan 0 toks = Inr (Suc d)) \<and> p = - 1 \<and> s = [])) \<and>
   parse_to_ast [t] = Inr (KSpkASTNode t [])"
  using parse_mismatched_iff [of toks p s] parse_to_ast_single [of t] by blast

theorem parse_mismatched_delimiter_exactly_when_unbalanced_witness:
  "parse_k_spk_expression [10217, 8853] TEST_ROSETTA =
     Inl (ParseError
            (u ''Failed to build AST: Parse Error at position 0: Mismatched closing delimiter (symbol: ''
             @ [39] @ CLOSE @ [39] @ u '')'')
            (- 1) []) \<and>
   parse_k_spk_expression [10216, 8853, 10710] TEST_ROSETTA =
     Inl (ParseError
            (u ''Failed to build AST: Parse Error at position -1: Mismatched opening delimiter (symbol: ''
             @ [39] @ [39] @ u '')'')
            (- 1) [])"
proof -
  let ?A = "tokenize TEST_ROSETTA [10217, 8853]"
  let ?B = "tokenize TEST_ROSETTA [10216, 8853, 10710]"
  have la: "2 \<le> length ?A" by (simp add: tokenize_close_plus)
  have lb: "2 \<le> length ?B" by (simp add: tokenize_open_plus_hourglass)
  have "parse_to_ast ?A = Inl (reraised (ParseError (u ''Mismatched closing delimiter'') 0 CLOSE))"
    using parse_mismatched_delimiter_exactly_when_unbalanced [of ?A 0 CLOSE] la scan_close_plus
    by (simp add: char_token_close)
  then have a: "parse_k_spk_expression [10217, 8853] TEST_ROSETTA =
     Inl (ParseError
            (u ''Failed to build AST: Parse Error at position 0: Mismatched closing delimiter (symbol: ''
             @ [39] @ CLOSE @ [39] @ u '')'')
            (- 1) [])"
    by (simp add: parse_k_spk_expression_def reraised_def str_ParseError_def str_int_def str_nat_0)
  have "parse_to_ast ?B = Inl (reraised (ParseError (u ''Mismatched opening delimiter'') (- 1) []))"
    using parse_mismatched_delimiter_exactly_when_unbalanced [of ?B "- 1" "[]"] lb
      scan_open_plus_hourglass
    by simp
  then have b: "parse_k_spk_expression [10216, 8853, 10710] TEST_ROSETTA =
     Inl (ParseError
            (u ''Failed to build AST: Parse Error at position -1: Mismatched opening delimiter (symbol: ''
             @ [39] @ [39] @ u '')'')
            (- 1) [])"
    by (simp add: parse_k_spk_expression_def reraised_def str_ParseError_def str_int_def
        str_nat_one str_nat_1)
  from a b show ?thesis by blast
qed

section \<open>Pop and reduce\<close>

text \<open>
  Claim C7.  A pop-and-reduce step of the builder (the operator stack is one the builder
  has filled, and its top is not an open delimiter, as all three loops check before they
  pop) pops the top token and wraps it in a node: with two or more operands the two
  topmost are popped, the deeper one becomes child 0 and the topmost child 1; with
  exactly one operand it becomes the only child; with none the node has no children.
  In every case the node is pushed on the output stack.
\<close>

theorem pop_and_reduce:
  "builder_stack (operator_token # operator_stack) \<Longrightarrow> symbol operator_token \<noteq> OPEN \<Longrightarrow>
   pop_operator_to_output (operator_token # operator_stack) output_stack =
     (operator_stack,
      case output_stack of
        right_child # left_child # rest \<Rightarrow>
          KSpkASTNode operator_token [left_child, right_child] # rest
      | [child] \<Rightarrow> [KSpkASTNode operator_token [child]]
      | [] \<Rightarrow> [KSpkASTNode operator_token []])"
  by (rule pop_and_reduce_main)

theorem pop_and_reduce_witness:
  "builder_stack [char_token TEST_ROSETTA 8853 1, char_token TEST_ROSETTA 10216 0] \<and>
   symbol (char_token TEST_ROSETTA 8853 1) \<noteq> OPEN \<and>
   pop_operator_to_output [char_token TEST_ROSETTA 8853 1, char_token TEST_ROSETTA 10216 0]
       [KSpkASTNode (char_token TEST_ROSETTA 9830 3) [],
        KSpkASTNode (char_token TEST_ROSETTA 10710 2) []] =
     ([char_token TEST_ROSETTA 10216 0],
      [KSpkASTNode (char_token TEST_ROSETTA 8853 1)
         [KSpkASTNode (char_token TEST_ROSETTA 10710 2) [],
          KSpkASTNode (char_token TEST_ROSETTA 9830 3) []]])"
proof -
  have h1: "builder_stack [char_token TEST_ROSETTA 8853 1, char_token TEST_ROSETTA 10216 0]"
    by (simp add: builder_stack_def char_token_open char_token_operator [OF plus_operator])
  have h2: "symbol (char_token TEST_ROSETTA 8853 1) \<noteq> OPEN"
    by (simp add: char_token_operator [OF plus_operator] OPEN_def)
  from pop_and_reduce [OF h1 h2,
      of "[KSpkASTNode (char_token TEST_ROSETTA 9830 3) [],
           KSpkASTNode (char_token TEST_ROSETTA 10710 2) []]"] h1 h2
  show ?thesis by simp
qed

section \<open>The shape of a parsed tree\<close>



section \<open>Tokens, metadata and validation\<close>

lemma validate_ast_flagged:
  "validate_ast (KSpkASTNode tok chs) =
     (if flagged tok then [issue tok] else []) @ concat (map validate_ast chs)"
  by (simp add: flagged_def issue_def)

lemma operator_not_space: "[c] \<in> operators \<Longrightarrow> \<not> isspace c"
  by (auto simp: operators_def isspace_def)

lemma delimiters_None_not_OPEN: "delimiters [c] = None \<Longrightarrow> [c] \<noteq> OPEN"
  by (auto simp: delimiters_def split: if_splits)

lemma known_operator_token:
  assumes "known_operator rosetta c"
  shows "\<not> isspace c \<and> type (char_token rosetta c p) = OPERATOR \<and>
         symbol (char_token rosetta c p) \<noteq> OPEN \<and> \<not> flagged (char_token rosetta c p)"
proof (cases "[c] \<in> operators")
  case True
  then show ?thesis
    using delimiters_None_not_OPEN [OF delimiters_operator [OF True]]
    by (simp add: char_token_operator operator_not_space flagged_def empty_dict_def)
next
  case False
  with assms obtain d where d: "delimiters [c] = None" "\<not> isspace c" "rosetta [c] = Some d"
    "classify_symbol d = OPERATOR" "case d_error d of None \<Rightarrow> True | Some v \<Rightarrow> \<not> truthy v"
    by (auto simp: known_operator_def split: option.splits)
  with False show ?thesis
    using delimiters_None_not_OPEN [OF d(1)]
    by (auto simp: char_token_table flagged_def split: option.splits)
qed

lemma unknown_token:
  "unknown rosetta [c] \<Longrightarrow> char_token rosetta c p = error_token c p"
  by (simp add: unknown_def char_token_unknown)

lemma error_token_fields:
  "type (error_token c p) = CORE \<and> precedence (error_token c p) = 10 \<and>
   d_error (metadata (error_token c p)) = Some (PyBool True) \<and>
   semantic_value (error_token c p) = u ''UNKNOWN_SYMBOL:'' @ [c] \<and>
   symbol (error_token c p) = [c] \<and> flagged (error_token c p)"
  by (simp add: error_token_def flagged_def empty_dict_def)

lemma placeholder_char_token: "placeholder rosetta (char_token rosetta c p)"
  using unknown_token [of rosetta c p] error_token_fields [of c p]
  by (simp add: placeholder_def symbol_char_token)

lemma tokenize_loop_list_all:
  "(\<And>c p. P (char_token rosetta c p)) \<Longrightarrow> list_all P (tokenize_loop rosetta s [] pos)"
  by (induction s arbitrary: pos) (simp_all add: tokenize_loop_Cons del: tokenize_loop.simps(2))

lemma tokenize_list_all:
  "(\<And>c p. P (char_token rosetta c p)) \<Longrightarrow> list_all P (tokenize rosetta s)"
  by (simp add: tokenize_eq_loop tokenize_loop_list_all)

lemma tokenize_loop_symbols:
  "map symbol (tokenize_loop rosetta s [] pos) = map (\<lambda>c. [c]) (filter (\<lambda>c. \<not> isspace c) s)"
  by (induction s arbitrary: pos)
     (simp_all add: tokenize_loop_Cons symbol_char_token del: tokenize_loop.simps(2))

lemma tokenize_symbols:
  "map symbol (tokenize rosetta s) = map (\<lambda>c. [c]) (filter (\<lambda>c. \<not> isspace c) s)"
  by (simp add: tokenize_eq_loop tokenize_loop_symbols)

lemma tokenize_three:
  "\<not> isspace a \<Longrightarrow> \<not> isspace x \<Longrightarrow> \<not> isspace b \<Longrightarrow>
   tokenize rosetta [a, x, b] =
     [char_token rosetta a 0, char_token rosetta x 1, char_token rosetta b 2]"
  by (simp add: tokenize_eq_loop tokenize_loop_Cons del: tokenize_loop.simps(2))

lemma build_operator_operand_operator:
  assumes "type a = OPERATOR" "symbol a \<noteq> OPEN" "type b = OPERATOR" "symbol b \<noteq> OPEN"
    and "type x \<noteq> DELIMITER" "type x \<noteq> OPERATOR"
  shows "build_expression_tree [a, x, b] =
           Inr (if precedence a \<le> precedence b
                then KSpkASTNode b [KSpkASTNode a [KSpkASTNode x []]]
                else KSpkASTNode a [KSpkASTNode b [KSpkASTNode x []]])"
proof -
  have 1: "process_token a [] [] = Inr ([a], [])"
    using assms by (simp add: process_token_operator while_operator_Nil)
  have 2: "process_token x [a] [] = Inr ([a], [KSpkASTNode x []])"
    using assms by (simp add: process_token_operand)
  have 3: "process_token b [a] [KSpkASTNode x []] =
             Inr (if precedence a \<le> precedence b
                  then ([b], [KSpkASTNode a [KSpkASTNode x []]])
                  else ([b, a], [KSpkASTNode x []]))"
    using assms
    by (simp add: process_token_operator while_operator_Cons while_operator_Nil reduce_def)
  show ?thesis
    using assms
    by (simp add: build_expression_tree_def 1 2 3 while_remaining_Cons while_remaining_Nil
        reduce_def)
qed

lemma three_symbols:
  assumes "known_operator rosetta a" "unknown rosetta [x]" "\<not> isspace x"
    "known_operator rosetta b"
  shows "\<exists>root. parse_k_spk_expression [a, x, b] rosetta = Inr root \<and>
                validate_ast root = [u ''Error token in AST: '' @ [x]]"
proof -
  let ?a = "char_token rosetta a 0" and ?x = "char_token rosetta x 1"
    and ?b = "char_token rosetta b 2"
  from known_operator_token [OF assms(1), of 0] known_operator_token [OF assms(4), of 2]
  have ka: "\<not> isspace a" "type ?a = OPERATOR" "symbol ?a \<noteq> OPEN" "\<not> flagged ?a"
    and kb: "\<not> isspace b" "type ?b = OPERATOR" "symbol ?b \<noteq> OPEN" "\<not> flagged ?b"
    by simp_all
  from unknown_token [OF assms(2), of 1] error_token_fields [of x 1]
  have kx: "type ?x = CORE" "flagged ?x" "symbol ?x = [x]" by simp_all
  have t: "tokenize rosetta [a, x, b] = [?a, ?x, ?b]"
    using ka(1) assms(3) kb(1) by (rule tokenize_three)
  have "build_expression_tree [?a, ?x, ?b] =
           Inr (if precedence ?a \<le> precedence ?b
                then KSpkASTNode ?b [KSpkASTNode ?a [KSpkASTNode ?x []]]
                else KSpkASTNode ?a [KSpkASTNode ?b [KSpkASTNode ?x []]])"
    using ka(2,3) kb(2,3) kx(1) by (intro build_operator_operand_operator) simp_all
  then show ?thesis
    using ka(4) kb(4) kx(2,3)
    by (simp add: parse_k_spk_expression_def t parse_to_ast_two validate_ast_flagged issue_def
        del: validate_ast.simps)
qed

lemma precedence_rules_below_10: "precedence_rules k < 10"
  by (cases k) simp_all

lemma table_metadata_char_token: "table_metadata rosetta (char_token rosetta c p)"
  by (auto simp: table_metadata_def char_token_def create_token_def error_token_def Let_def
      split: option.splits)

lemma validate_ast_flatten:
  "validate_ast root = map issue (filter flagged (flatten_ast_tokens root))"
proof (induction root)
  case (KSpkASTNode tok chs)
  have "concat (map validate_ast chs) =
        concat (map (\<lambda>c. map issue (filter flagged (flatten_ast_tokens c))) chs)"
    using KSpkASTNode.IH by (induction chs) simp_all
  then show ?case
    by (simp add: validate_ast_flagged filter_concat map_concat comp_def
        del: validate_ast.simps)
qed

lemma known_plus: "known_operator rosetta 8853"
  by (simp add: known_operator_def operators_def)

lemma known_times: "known_operator rosetta 8855"
  by (simp add: known_operator_def operators_def)

lemma unknown_X: "unknown TEST_ROSETTA [88]"
  by (simp add: unknown_def delimiters_def OPEN_def CLOSE_def operators_def TEST_ROSETTA_def)

section \<open>Unknown symbols\<close>

text \<open>
  Claim C3.  Unknown symbols never abort tokenization.  For every table and every input
  string the tokenizer returns one token for each character that is not whitespace, in
  order; every token whose symbol is unknown (no delimiter, not in the operator set, not
  in the table) is the placeholder: core class, precedence 10 (above every precedence
  of the category table), error flag set.  In particular a string of a known operator,
  an unknown character that is not whitespace and another known operator parses to a
  tree, and \<open>validate_ast\<close> returns exactly one issue on it, the one for the unknown
  character.
\<close>

theorem unknown_symbols_never_abort:
  "map symbol (tokenize rosetta s) = map (\<lambda>c. [c]) (filter (\<lambda>c. \<not> isspace c) s) \<and>
   list_all (placeholder rosetta) (tokenize rosetta s) \<and>
   precedence_rules k < 10 \<and>
   (known_operator rosetta a \<and> unknown rosetta [x] \<and> \<not> isspace x \<and> known_operator rosetta b
      \<longrightarrow> (\<exists>root. parse_k_spk_expression [a, x, b] rosetta = Inr root \<and>
                  validate_ast root = [u ''Error token in AST: '' @ [x]]))"
  using tokenize_symbols [of rosetta s] tokenize_list_all [of "placeholder rosetta" rosetta s]
    placeholder_char_token [of rosetta] precedence_rules_below_10 [of k]
    three_symbols [of rosetta a x b]
  by blast

theorem unknown_symbols_never_abort_witness:
  "known_operator TEST_ROSETTA 8853 \<and> unknown TEST_ROSETTA [88] \<and> \<not> isspace 88 \<and>
   known_operator TEST_ROSETTA 8855 \<and>
   map symbol (tokenize TEST_ROSETTA [8853, 88, 8855]) = [[8853], [88], [8855]] \<and>
   (\<exists>root. parse_k_spk_expression [8853, 88, 8855] TEST_ROSETTA = Inr root \<and>
           validate_ast root = [u ''Error token in AST: '' @ [88]])"
proof -
  have h: "known_operator TEST_ROSETTA 8853 \<and> unknown TEST_ROSETTA [88] \<and> \<not> isspace 88 \<and>
           known_operator TEST_ROSETTA 8855"
    by (simp add: known_plus known_times unknown_X isspace_def)
  have f: "map (\<lambda>c. [c]) (filter (\<lambda>c. \<not> isspace c) [8853, 88, 8855]) = [[8853], [88], [8855]]"
    by (simp add: isspace_def)
  from unknown_symbols_never_abort [of TEST_ROSETTA "[8853, 88, 8855]" Modifier 8853 88 8855] h f
  show ?thesis by simp
qed

section \<open>Table entries as metadata\<close>

text \<open>
  Claim C10, as stated, fails for a table symbol that is in the fixed operator set (or is
  a delimiter): the circled plus with a flagged table entry gets the empty metadata, not
  the entry, and \<open>validate_ast\<close> reports nothing for its node.
\<close>

theorem operator_set_symbol_drops_table_entry:
  "FLAGGED_TABLE [8853] = Some flagged_entry \<and>
   d_error flagged_entry = Some (PyBool True) \<and>
   flagged_entry \<noteq> empty_dict \<and>
   map metadata (tokenize FLAGGED_TABLE [8853]) = [empty_dict] \<and>
   map_sum id validate_ast (parse_k_spk_expression [8853] FLAGGED_TABLE) = Inr []"
proof -
  have ns: "\<not> isspace 8853" by (simp add: isspace_def)
  have t: "tokenize FLAGGED_TABLE [8853] = [char_token FLAGGED_TABLE 8853 0]"
    using ns by (rule tokenize_single)
  have m: "metadata (char_token FLAGGED_TABLE 8853 0) = empty_dict"
    by (simp add: char_token_operator [OF plus_operator])
  have 1: "FLAGGED_TABLE [8853] = Some flagged_entry"
    by (simp add: FLAGGED_TABLE_def)
  have 2: "d_error flagged_entry = Some (PyBool True)"
    by (simp add: flagged_entry_def)
  have 3: "flagged_entry \<noteq> empty_dict"
    by (simp add: flagged_entry_def empty_dict_def)
  have 4: "map metadata (tokenize FLAGGED_TABLE [8853]) = [empty_dict]"
    by (simp add: t m)
  have "parse_k_spk_expression [8853] FLAGGED_TABLE =
      Inr (KSpkASTNode (char_token FLAGGED_TABLE 8853 0) [])"
    by (simp add: parse_k_spk_expression_def t parse_to_ast_def)
  then have 5: "map_sum id validate_ast (parse_k_spk_expression [8853] FLAGGED_TABLE) = Inr []"
    by (simp add: m empty_dict_def)
  from 1 2 3 4 5 show ?thesis by blast
qed

text \<open>
  Claim C10, amended.  For every symbol of the table that is neither a delimiter nor in
  the fixed operator set, \<open>tokenize\<close> stores the table's entry as the token's metadata
  (a table symbol that is a delimiter or in the operator set gets the empty metadata);
  and \<open>validate_ast\<close> reports, in pre-order, one issue for every node whose token's
  metadata holds a truthy \<open>error\<close>, whether the metadata is a table entry or the
  placeholder's.  So a one-symbol input whose table entry is flagged is reported.
\<close>

theorem table_entry_is_metadata:
  "list_all (table_metadata rosetta) (tokenize rosetta s) \<and>
   validate_ast root = map issue (filter flagged (flatten_ast_tokens root)) \<and>
   (delimiters [c] = None \<and> [c] \<notin> operators \<and> \<not> isspace c \<and> rosetta [c] = Some d \<longrightarrow>
      map metadata (tokenize rosetta [c]) = [d] \<and>
      map_sum id validate_ast (parse_k_spk_expression [c] rosetta) =
        Inr (if (case d_error d of None \<Rightarrow> False | Some v \<Rightarrow> truthy v)
             then [u ''Error token in AST: '' @ [c]] else []))"
proof -
  have 1: "list_all (table_metadata rosetta) (tokenize rosetta s)"
    by (rule tokenize_list_all) (rule table_metadata_char_token)
  have 2: "validate_ast root = map issue (filter flagged (flatten_ast_tokens root))"
    by (rule validate_ast_flatten)
  have 3: "map metadata (tokenize rosetta [c]) = [d] \<and>
      map_sum id validate_ast (parse_k_spk_expression [c] rosetta) =
        Inr (if (case d_error d of None \<Rightarrow> False | Some v \<Rightarrow> truthy v)
             then [u ''Error token in AST: '' @ [c]] else [])"
    if "delimiters [c] = None" "[c] \<notin> operators" "\<not> isspace c" "rosetta [c] = Some d"
    using that
    by (simp add: parse_k_spk_expression_def tokenize_single parse_to_ast_def char_token_table)
  from 1 2 3 show ?thesis by blast
qed

theorem table_entry_is_metadata_witness:
  "delimiters [88] = None \<and> [88] \<notin> operators \<and> \<not> isspace 88 \<and>
   FLAGGED_TABLE [88] = Some flagged_entry \<and>
   map metadata (tokenize FLAGGED_TABLE [88]) = [flagged_entry] \<and>
   map_sum id validate_ast (parse_k_spk_expression [88] FLAGGED_TABLE) =
     Inr [u ''Error token in AST: '' @ [88]]"
proof -
  have h: "delimiters [88] = None \<and> [88] \<notin> operators \<and> \<not> isspace 88 \<and>
           FLAGGED_TABLE [88] = Some flagged_entry"
    by (simp add: delimiters_def OPEN_def CLOSE_def operators_def isspace_def FLAGGED_TABLE_def)
  have e: "(case d_error flagged_entry of None \<Rightarrow> False | Some v \<Rightarrow> truthy v)"
    by (simp add: flagged_entry_def)
  from table_entry_is_metadata [of FLAGGED_TABLE "[]" "KSpkASTNode (error_token 88 0) []" 88 flagged_entry]
    h e
  show ?thesis by simp
qed

end
